theory Spec2Isabelle
  imports Main "HOL-Library.Word"
begin

unbundle bit_operations_syntax

section \<open>Machine types and flat byte regions\<close>

text \<open>
  \<^verbatim>\<open>testbench_cli.cc\<close> reads an ELF image through a pointer into a memory-mapped file
  and writes the segments through a pointer into the memory array of the simulated
  core. Neither pointer carries a length and the code checks none, so both regions are
  modelled as flat stores: a function from the byte offset relative to the pointer to
  the byte found there. A write at an offset of \<open>MEM_SIZE\<close> or more is a write behind the
  memory array, which the C program must never do; the model shows where the code does it.
  The host is taken to be little-endian with 64-bit pointers (the struct casts of the
  source read the fields in host byte order, and pointer arithmetic does not wrap), with
  \<^verbatim>\<open>int\<close> of 32 and \<^verbatim>\<open>unsigned long\<close> of 64 bits; \<^verbatim>\<open>uint32_t\<close> arithmetic wraps modulo
  \<open>2 ^ 32\<close>.
\<close>

type_synonym u8 = "8 word"
type_synonym u16 = "16 word"
type_synonym u32 = "32 word"
type_synonym bytes = "nat \<Rightarrow> u8"

definition rd16 :: "bytes \<Rightarrow> nat \<Rightarrow> u16" where
  "rd16 m a = ucast (m a) OR push_bit 8 (ucast (m (a + 1)))"

definition rd32 :: "bytes \<Rightarrow> nat \<Rightarrow> u32" where
  "rd32 m a = ucast (m a) OR push_bit 8 (ucast (m (a + 1)))
     OR push_bit 16 (ucast (m (a + 2))) OR push_bit 24 (ucast (m (a + 3)))"

text \<open>\<^verbatim>\<open>memset(dst + a, c, n)\<close> and \<^verbatim>\<open>memcpy(dst + a, src + s, n)\<close> on flat stores.\<close>

definition memset :: "bytes \<Rightarrow> nat \<Rightarrow> u8 \<Rightarrow> nat \<Rightarrow> bytes" where
  "memset dst a c n = (\<lambda>x. if a \<le> x \<and> x < a + n then c else dst x)"

definition memcpy :: "bytes \<Rightarrow> nat \<Rightarrow> bytes \<Rightarrow> nat \<Rightarrow> nat \<Rightarrow> bytes" where
  "memcpy dst a src s n = (\<lambda>x. if a \<le> x \<and> x < a + n then src (s + (x - a)) else dst x)"

text \<open>A region given by the few bytes that are not zero (used for concrete images).\<close>

definition sparse :: "(nat \<times> u8) list \<Rightarrow> bytes" where
  "sparse kvs = (\<lambda>i. case map_of kvs i of Some b \<Rightarrow> b | None \<Rightarrow> 0)"

section \<open>The ELF structures read by the loader\<close>

text \<open>
  The constants and the two structures come from the system header \<^verbatim>\<open>elf.h\<close>:
  \<^verbatim>\<open>Elf32_Ehdr\<close> is 52 bytes, \<^verbatim>\<open>Elf32_Phdr\<close> is 32 bytes.
\<close>

definition MEM_SIZE :: nat where
  "MEM_SIZE = 128 * 1024"

definition ELFMAG :: "u8 list" where
  "ELFMAG = [0x7F, 0x45, 0x4C, 0x46]"

definition SELFMAG :: nat where
  "SELFMAG = 4"

definition EI_CLASS :: nat where
  "EI_CLASS = 4"

definition ELFCLASS32 :: u8 where
  "ELFCLASS32 = 1"

definition EM_RISCV :: u16 where
  "EM_RISCV = 243"

definition PT_LOAD :: u32 where
  "PT_LOAD = 1"

record Elf32_Ehdr =
  e_ident :: "u8 list"
  e_type :: u16
  e_machine :: u16
  e_version :: u32
  e_entry :: u32
  e_phoff :: u32
  e_shoff :: u32
  e_flags :: u32
  e_ehsize :: u16
  e_phentsize :: u16
  e_phnum :: u16
  e_shentsize :: u16
  e_shnum :: u16
  e_shstrndx :: u16

record Elf32_Phdr =
  p_type :: u32
  p_offset :: u32
  p_vaddr :: u32
  p_paddr :: u32
  p_filesz :: u32
  p_memsz :: u32
  p_flags :: u32
  p_align :: u32

text \<open>The cast \<^verbatim>\<open>(Elf32_Ehdr*)mapped_file\<close>: the header as the bytes at offset 0 show it.\<close>

definition read_Ehdr :: "bytes \<Rightarrow> Elf32_Ehdr" where
  "read_Ehdr f = \<lparr> e_ident = map f [0 ..< 16], e_type = rd16 f 16, e_machine = rd16 f 18,
     e_version = rd32 f 20, e_entry = rd32 f 24, e_phoff = rd32 f 28, e_shoff = rd32 f 32,
     e_flags = rd32 f 36, e_ehsize = rd16 f 40, e_phentsize = rd16 f 42,
     e_phnum = rd16 f 44, e_shentsize = rd16 f 46, e_shnum = rd16 f 48,
     e_shstrndx = rd16 f 50 \<rparr>"

text \<open>An \<^verbatim>\<open>Elf32_Phdr\<close> at byte offset \<open>a\<close> of the mapped file.\<close>

definition read_Phdr :: "bytes \<Rightarrow> nat \<Rightarrow> Elf32_Phdr" where
  "read_Phdr f a = \<lparr> p_type = rd32 f a, p_offset = rd32 f (a + 4), p_vaddr = rd32 f (a + 8),
     p_paddr = rd32 f (a + 12), p_filesz = rd32 f (a + 16), p_memsz = rd32 f (a + 20),
     p_flags = rd32 f (a + 24), p_align = rd32 f (a + 28) \<rparr>"

text \<open>
  \<^verbatim>\<open>phdr[i]\<close> with \<^verbatim>\<open>phdr = (Elf32_Phdr*)((char*)mapped_file + ehdr->e_phoff)\<close>: the
  table is indexed in steps of \<^verbatim>\<open>sizeof(Elf32_Phdr)\<close>; \<^verbatim>\<open>e_phentsize\<close> is not consulted.
\<close>

definition phdr :: "bytes \<Rightarrow> Elf32_Ehdr \<Rightarrow> nat \<Rightarrow> Elf32_Phdr" where
  "phdr f ehdr i = read_Phdr f (unat (e_phoff ehdr) + 32 * i)"

section \<open>ElfLoader::load\<close>

text \<open>
  What \<^verbatim>\<open>load\<close> writes to \<^verbatim>\<open>stderr\<close>, one constructor per \<^verbatim>\<open>fprintf\<close>. Every
  constructor but \<open>WarningNotRiscv\<close> is followed by \<^verbatim>\<open>return false\<close>. The lines
  printed to \<^verbatim>\<open>stdout\<close> (file name, entry point, one line per segment) do not
  influence control flow and are left out.
\<close>

datatype message =
  CannotOpen
  | CannotStat
  | CannotMmap
  | NotValidElf
  | Only32Bit
  | WarningNotRiscv u16
  | SegmentExceeds nat u32 u32

text \<open>What \<^verbatim>\<open>open\<close>, \<^verbatim>\<open>fstat\<close> and \<^verbatim>\<open>mmap\<close> make of the file name.\<close>

datatype file_env = OpenFails | StatFails | MmapFails | Mapped bytes

record load_result =
  returned :: bool
  memory :: bytes
  stderr :: "message list"

definition load_addr :: "Elf32_Phdr \<Rightarrow> u32" where
  "load_addr p = (if p_paddr p \<noteq> 0 then p_paddr p else p_vaddr p)"

text \<open>
  The test \<^verbatim>\<open>load_addr >= MEM_SIZE || load_addr + memsz > MEM_SIZE\<close>. Both operands of the
  sum are \<^verbatim>\<open>uint32_t\<close>, so the sum is the wrapping sum of \<open>u32\<close>.
\<close>

definition exceeds_bounds :: "Elf32_Phdr \<Rightarrow> bool" where
  "exceeds_bounds p \<longleftrightarrow>
     MEM_SIZE \<le> unat (load_addr p) \<or> MEM_SIZE < unat (load_addr p + p_memsz p)"

text \<open>The copy of the file data and the zeroing of the rest of one segment.\<close>

definition copy_segment :: "bytes \<Rightarrow> Elf32_Phdr \<Rightarrow> bytes \<Rightarrow> bytes" where
  "copy_segment f p mem =
     (let mem1 = (if 0 < unat (p_filesz p)
                  then memcpy mem (unat (load_addr p)) f (unat (p_offset p)) (unat (p_filesz p))
                  else mem)
      in if unat (p_filesz p) < unat (p_memsz p)
         then memset mem1 (unat (load_addr p) + unat (p_filesz p)) 0
                (unat (p_memsz p - p_filesz p))
         else mem1)"

text \<open>The loop \<^verbatim>\<open>for (int i = 0; i < ehdr->e_phnum; i++)\<close>, from index \<open>i\<close> on.\<close>

function load_segments :: "bytes \<Rightarrow> Elf32_Ehdr \<Rightarrow> nat \<Rightarrow> bytes \<Rightarrow> load_result" where
  "load_segments f ehdr i mem =
     (if i < unat (e_phnum ehdr) then
        (if p_type (phdr f ehdr i) = PT_LOAD then
           (if exceeds_bounds (phdr f ehdr i)
            then \<lparr> returned = False, memory = mem,
                   stderr = [SegmentExceeds i (load_addr (phdr f ehdr i)) (p_memsz (phdr f ehdr i))] \<rparr>
            else load_segments f ehdr (i + 1) (copy_segment f (phdr f ehdr i) mem))
         else load_segments f ehdr (i + 1) mem)
      else \<lparr> returned = True, memory = mem, stderr = [] \<rparr>)"
  by pat_completeness auto
termination
  by (relation "measure (\<lambda>(f, ehdr, i, mem). unat (e_phnum ehdr) - i)") auto

declare load_segments.simps [simp del]

text \<open>The part of \<^verbatim>\<open>load\<close> that works on the mapped file.\<close>

definition load_mapped :: "Elf32_Ehdr \<Rightarrow> bytes \<Rightarrow> bytes \<Rightarrow> load_result" where
  "load_mapped ehdr f mem =
     (if take SELFMAG (e_ident ehdr) \<noteq> ELFMAG
      then \<lparr> returned = False, memory = mem, stderr = [NotValidElf] \<rparr>
      else if e_ident ehdr ! EI_CLASS \<noteq> ELFCLASS32
      then \<lparr> returned = False, memory = mem, stderr = [Only32Bit] \<rparr>
      else
        (let warning = (if e_machine ehdr \<noteq> EM_RISCV then [WarningNotRiscv (e_machine ehdr)] else []);
             r = load_segments f ehdr 0 (memset mem 0 0 MEM_SIZE)
         in r \<lparr> stderr := warning @ stderr r \<rparr>))"

definition load :: "file_env \<Rightarrow> bytes \<Rightarrow> load_result" where
  "load file mem =
     (case file of
        OpenFails \<Rightarrow> \<lparr> returned = False, memory = mem, stderr = [CannotOpen] \<rparr>
      | StatFails \<Rightarrow> \<lparr> returned = False, memory = mem, stderr = [CannotStat] \<rparr>
      | MmapFails \<Rightarrow> \<lparr> returned = False, memory = mem, stderr = [CannotMmap] \<rparr>
      | Mapped f \<Rightarrow> load_mapped (read_Ehdr f) f mem)"

section \<open>The instruction trace record\<close>

text \<open>
  \<^verbatim>\<open>fprintf(trace_fd, "%9.9lx\n", (unsigned long)top->trace_data)\<close>: the precision asks for at
  least nine hexadecimal digits (zeros in front), the field width for at least nine
  characters (blanks in front), and a newline ends the record. \<^verbatim>\<open>unsigned long\<close> is taken
  to be 64 bits wide.
\<close>

definition hex_digit :: "nat \<Rightarrow> char" where
  "hex_digit d = ''0123456789abcdef'' ! d"

fun hex_digits :: "nat \<Rightarrow> string" where
  "hex_digits n = (if n = 0 then [] else hex_digits (n div 16) @ [hex_digit (n mod 16)])"

declare hex_digits.simps [simp del]

definition printf_9_9lx :: "64 word \<Rightarrow> string" where
  "printf_9_9lx v =
     (let digits = hex_digits (unat v);
          padded = replicate (9 - length digits) (CHR ''0'') @ digits
      in replicate (9 - length padded) (CHR '' '') @ padded @ [CHR 0x0A])"

section \<open>The simulation loop of main\<close>

text \<open>
  Modelled from the spec: the declaration of the pins of the Verilated model
  (\<^verbatim>\<open>Vpicorv32_wrapper.h\<close>, generated from the Verilog sources) is not part of
  \<^verbatim>\<open>testbench_cli.cc\<close>. The spec records the trace-data pin as nine hexadecimal
  digits, which is the 36-bit trace port of the PicoRV32 core, so \<open>trace_data\<close> is a
  36-bit word; the cast \<^verbatim>\<open>(unsigned long)\<close> of the source widens it to 64 bits.

  The model itself is opaque. Its interface is what \<^verbatim>\<open>main\<close> uses of it: \<^verbatim>\<open>eval()\<close>,
  which settles the model for the current levels of the inputs \<^verbatim>\<open>clk\<close> and \<^verbatim>\<open>resetn\<close>
  and does not write these inputs; \<^verbatim>\<open>Verilated::gotFinish()\<close>; and the output pins
  \<^verbatim>\<open>trace_valid\<close> and \<^verbatim>\<open>trace_data\<close>.
\<close>

record 'd dut =
  eval :: "bool \<Rightarrow> bool \<Rightarrow> 'd \<Rightarrow> 'd"
  gotFinish :: "'d \<Rightarrow> bool"
  trace_valid :: "'d \<Rightarrow> bool"
  trace_data :: "'d \<Rightarrow> 36 word"

text \<open>
  What the loop reads but does not change: whether the VCD file and the trace file are
  open (\<^verbatim>\<open>tfp\<close>, \<^verbatim>\<open>trace_fd\<close> not null), \<^verbatim>\<open>verbose\<close> and \<^verbatim>\<open>timeout_cycles\<close>.
\<close>

record options =
  tfp :: bool
  trace_fd :: bool
  verbose :: bool
  timeout_cycles :: int

text \<open>
  The variables of the loop: \<^verbatim>\<open>top->clk\<close>, \<^verbatim>\<open>top->resetn\<close>, \<^verbatim>\<open>t\<close> (field \<open>time\<close>),
  \<^verbatim>\<open>cycle\<close>, the state of the model behind \<^verbatim>\<open>top\<close> (field \<open>model\<close>), and the three
  outputs: the times dumped to the VCD file, the lines written to the trace file and the
  cycle numbers printed as progress. \<^verbatim>\<open>t\<close> is a C \<^verbatim>\<open>int\<close>: a 32-bit word, compared as
  a signed number, whose addition wraps. \<^verbatim>\<open>cycle\<close> is only incremented while it is below
  \<^verbatim>\<open>timeout_cycles\<close>, so it never leaves the range of \<^verbatim>\<open>int\<close> and is modelled as an integer.
\<close>

record 'd sim_state =
  clk :: bool
  resetn :: bool
  time :: "32 word"
  cycle :: int
  model :: 'd
  vcd :: "32 word list"
  trace :: "string list"
  progress :: "int list"

text \<open>One iteration of the loop body.\<close>

definition sim_step :: "'d dut \<Rightarrow> options \<Rightarrow> 'd sim_state \<Rightarrow> 'd sim_state" where
  "sim_step D opts s =
     (let resetn' = (if 200 <s time s then True else resetn s);
          clk' = (\<not> clk s);
          model' = eval D clk' resetn' (model s);
          cycle' = (if clk' \<and> resetn' then cycle s + 1 else cycle s)
      in \<lparr> clk = clk', resetn = resetn', time = time s + 5, cycle = cycle', model = model',
           vcd = (if tfp opts then vcd s @ [time s] else vcd s),
           trace = (if trace_fd opts \<and> clk' \<and> resetn' \<and> trace_valid D model'
                    then trace s @ [printf_9_9lx (ucast (trace_data D model'))] else trace s),
           progress = (if clk' \<and> resetn' \<and> verbose opts \<and> cycle' mod 10000 = 0
                       then progress s @ [cycle'] else progress s) \<rparr>)"

text \<open>The loop condition \<^verbatim>\<open>!Verilated::gotFinish() && cycle < timeout_cycles\<close>.\<close>

definition running :: "'d dut \<Rightarrow> options \<Rightarrow> 'd sim_state \<Rightarrow> bool" where
  "running D opts s \<longleftrightarrow> \<not> gotFinish D (model s) \<and> cycle s < timeout_cycles opts"

text \<open>Iterations left before \<^verbatim>\<open>t > 200\<close> releases the reset (for termination only).\<close>

definition until_reset_release :: "'d sim_state \<Rightarrow> nat" where
  "until_reset_release s = (if resetn s then 0 else nat (201 - sint (time s)))"

text \<open>
  The states after each iteration of the loop, in order. The loop ends for every model:
  once the reset is released every second iteration counts a cycle.
\<close>

function sim_run :: "'d dut \<Rightarrow> options \<Rightarrow> 'd sim_state \<Rightarrow> 'd sim_state list" where
  "sim_run D opts s =
     (if running D opts s then sim_step D opts s # sim_run D opts (sim_step D opts s) else [])"
  by pat_completeness auto
termination
proof (relation "measures
     [\<lambda>(D, opts, s). nat (timeout_cycles opts - cycle s), \<lambda>(D, opts, s). until_reset_release s,
      \<lambda>(D, opts, s). if clk s then 1 else 0]")
  show "wf (measures
     [\<lambda>(D :: 'd dut, opts, s). nat (timeout_cycles opts - cycle s),
      \<lambda>(D, opts, s). until_reset_release s, \<lambda>(D, opts, s). if clk s then 1 else 0])"
    by simp
next
  fix D :: "'d dut" and opts s
  assume run: "running D opts s"
  show "((D, opts, sim_step D opts s), (D, opts, s)) \<in> measures
     [\<lambda>(D, opts, s). nat (timeout_cycles opts - cycle s), \<lambda>(D, opts, s). until_reset_release s,
      \<lambda>(D, opts, s). if clk s then 1 else 0]"
  proof (cases "200 <s time s \<or> resetn s")
    case True
    with run show ?thesis
      by (auto simp: sim_step_def running_def until_reset_release_def Let_def word_sless_alt)
  next
    case False
    then have small: "sint (time s) \<le> 200"
      by (simp add: word_sless_alt)
    have "- (2 ^ 31) \<le> sint (time s)"
      using sint_ge[of "time s"] by simp
    with small have "sint (time s + 5) = sint (time s) + 5"
      by (simp add: sint_word_ariths signed_take_bit_int_eq_self)
    with False small run show ?thesis
      by (auto simp: sim_step_def running_def until_reset_release_def Let_def)
  qed
qed

declare sim_run.simps [simp del]

text \<open>The loop \<^verbatim>\<open>while (!Verilated::gotFinish() && cycle < timeout_cycles) { ... }\<close>.\<close>

function sim_loop :: "'d dut \<Rightarrow> options \<Rightarrow> 'd sim_state \<Rightarrow> 'd sim_state" where
  "sim_loop D opts s = (if running D opts s then sim_loop D opts (sim_step D opts s) else s)"
  by pat_completeness auto
termination
proof (relation "measure (\<lambda>(D, opts, s). length (sim_run D opts s))")
  fix D :: "'d dut" and opts s
  assume "running D opts s"
  then have "sim_run D opts s = sim_step D opts s # sim_run D opts (sim_step D opts s)"
    by (subst sim_run.simps) simp
  then show "((D, opts, sim_step D opts s), (D, opts, s))
      \<in> measure (\<lambda>(D, opts, s). length (sim_run D opts s))"
    by simp
qed simp

declare sim_loop.simps [simp del]

section \<open>Command line and main\<close>

text \<open>
  \<^verbatim>\<open>atoi\<close> of the C library, as ISO C describes it: white space is skipped, an optional
  sign is read, then decimal digits as far as they go; what follows is ignored, and no
  digits give 0. The result is undefined (\<open>None\<close>) when the value is not representable
  as an \<^verbatim>\<open>int\<close>.
\<close>

definition isspace :: "char \<Rightarrow> bool" where
  "isspace c \<longleftrightarrow> c \<in> set [CHR '' '', CHR 0x09, CHR 0x0A, CHR 0x0B, CHR 0x0C, CHR 0x0D]"

definition isdigit :: "char \<Rightarrow> bool" where
  "isdigit c \<longleftrightarrow> c \<in> set ''0123456789''"

definition digit_value :: "char \<Rightarrow> int" where
  "digit_value c = int (of_char c) - 48"

fun decimal_prefix :: "int \<Rightarrow> string \<Rightarrow> int" where
  "decimal_prefix acc [] = acc"
| "decimal_prefix acc (c # cs) =
     (if isdigit c then decimal_prefix (acc * 10 + digit_value c) cs else acc)"

definition atoi :: "string \<Rightarrow> int option" where
  "atoi s =
     (let s1 = dropWhile isspace s;
          negative = (take 1 s1 = ''-'');
          s2 = (if take 1 s1 = ''-'' \<or> take 1 s1 = ''+'' then drop 1 s1 else s1);
          v = (if negative then - decimal_prefix 0 s2 else decimal_prefix 0 s2)
      in if - (2 ^ 31) \<le> v \<and> v < 2 ^ 31 then Some v else None)"

text \<open>The errors of the argument loop, one per message; each is followed by \<^verbatim>\<open>return 1\<close>.\<close>

datatype arg_error = InvalidTimeout | UnknownOption string | MultipleElfFiles | NoElfFile

datatype parse_result =
  Usage
  | Fatal arg_error
  | AtoiUndefined
  | Parsed "string option" int

text \<open>
  The loop \<^verbatim>\<open>for (int i = 1; i < argc; i++)\<close> over the arguments that are left, with the
  current \<^verbatim>\<open>elf_file\<close> (\<open>None\<close> for \<^verbatim>\<open>nullptr\<close>) and \<^verbatim>\<open>timeout_cycles\<close>. The first
  character of an empty argument is the terminating NUL, which is neither \<^verbatim>\<open>+\<close> nor \<^verbatim>\<open>-\<close>.
\<close>

fun parse_args :: "string list \<Rightarrow> string option \<Rightarrow> int \<Rightarrow> parse_result" where
  "parse_args [] elf_file timeout = Parsed elf_file timeout"
| "parse_args (arg # args) elf_file timeout =
     (if arg = ''-h'' \<or> arg = ''--help'' then Usage
      else if take 10 arg = ''--timeout='' then
        (case atoi (drop 10 arg) of
           None \<Rightarrow> AtoiUndefined
         | Some n \<Rightarrow> if n \<le> 0 then Fatal InvalidTimeout else parse_args args elf_file n)
      else if take 1 arg = ''+'' then parse_args args elf_file timeout
      else if take 1 arg = ''-'' then Fatal (UnknownOption arg)
      else (case elf_file of
              Some other \<Rightarrow> Fatal MultipleElfFiles
            | None \<Rightarrow> parse_args args (Some arg) timeout))"

text \<open>
  How a run of \<^verbatim>\<open>main\<close> ends. Only \<open>LoadFailed\<close> and \<open>Simulated\<close> come after
  \<^verbatim>\<open>new Vpicorv32_wrapper\<close>; \<open>Simulated\<close> carries \<^verbatim>\<open>timed_out\<close> and the state at the end of
  the loop.
\<close>

datatype 'd outcome =
  PrintedUsage
  | ArgumentError arg_error
  | UndefinedBehaviour
  | LoadFailed "message list"
  | Simulated bool "'d sim_state"

fun exit_code :: "'d outcome \<Rightarrow> int option" where
  "exit_code PrintedUsage = Some 0"
| "exit_code (ArgumentError e) = Some 1"
| "exit_code UndefinedBehaviour = None"
| "exit_code (LoadFailed msgs) = Some 1"
| "exit_code (Simulated timed_out s) = Some (if timed_out then 2 else 0)"

text \<open>The status line of the summary.\<close>

fun status :: "'d outcome \<Rightarrow> string option" where
  "status (Simulated timed_out s) = Some (if timed_out then ''TIMEOUT'' else ''FINISHED'')"
| "status other = None"

text \<open>From \<^verbatim>\<open>// Run simulation\<close> to the end of \<^verbatim>\<open>main\<close>.\<close>

definition initial_state :: "'d \<Rightarrow> 'd sim_state" where
  "initial_state m = \<lparr> clk = False, resetn = False, time = 0, cycle = 0, model = m,
     vcd = [], trace = [], progress = [] \<rparr>"

definition run_simulation :: "'d dut \<Rightarrow> options \<Rightarrow> 'd \<Rightarrow> 'd outcome" where
  "run_simulation D opts m =
     (let s = sim_loop D opts (initial_state m)
      in Simulated (timeout_cycles opts \<le> cycle s) s)"

text \<open>
  What \<^verbatim>\<open>main\<close> finds around it: the files behind the names, the device, the fresh model
  with its memory array (read and written through \<^verbatim>\<open>memory.data()\<close>), the library
  function \<^verbatim>\<open>Verilated::commandArgsPlusMatch\<close> (\<open>None\<close> for a null pointer), and
  whether \<^verbatim>\<open>fopen("testbench.trace", "w")\<close> succeeds.
\<close>

record 'd env =
  files :: "string \<Rightarrow> file_env"
  device :: "'d dut"
  new_model :: 'd
  model_memory :: "'d \<Rightarrow> bytes"
  with_memory :: "'d \<Rightarrow> bytes \<Rightarrow> 'd"
  commandArgsPlusMatch :: "string list \<Rightarrow> string \<Rightarrow> string option"
  fopen_trace :: bool

definition main :: "string list \<Rightarrow> 'd env \<Rightarrow> 'd outcome" where
  "main argv env =
     (case parse_args (drop 1 argv) None 1000000 of
        Usage \<Rightarrow> PrintedUsage
      | Fatal e \<Rightarrow> ArgumentError e
      | AtoiUndefined \<Rightarrow> UndefinedBehaviour
      | Parsed None timeout \<Rightarrow> ArgumentError NoElfFile
      | Parsed (Some elf_file) timeout \<Rightarrow>
          (let r = load (files env elf_file) (model_memory env (new_model env))
           in if \<not> returned r then LoadFailed (stderr r)
              else run_simulation (device env)
                     \<lparr> tfp = (commandArgsPlusMatch env argv ''vcd'' = Some ''+vcd''),
                       trace_fd = (commandArgsPlusMatch env argv ''trace'' = Some ''+trace''
                                   \<and> fopen_trace env),
                       verbose = (commandArgsPlusMatch env argv ''verbose'' = Some ''+verbose''),
                       timeout_cycles = timeout \<rparr>
                     (with_memory env (new_model env) (memory r))))"

section \<open>Notions used in the statements\<close>

text \<open>
  A valid 32-bit image: the header passes the two checks of \<^verbatim>\<open>load\<close>, the magic bytes and
  the class byte.
\<close>

definition valid_elf32 :: "Elf32_Ehdr \<Rightarrow> bool" where
  "valid_elf32 ehdr \<longleftrightarrow> take SELFMAG (e_ident ehdr) = ELFMAG \<and> e_ident ehdr ! EI_CLASS = ELFCLASS32"

text \<open>
  Entry \<open>i\<close> of the program header table is a loadable segment.
\<close>

definition loadable :: "bytes \<Rightarrow> Elf32_Ehdr \<Rightarrow> nat \<Rightarrow> bool" where
  "loadable f ehdr i \<longleftrightarrow> i < unat (e_phnum ehdr) \<and> p_type (phdr f ehdr i) = PT_LOAD"

text \<open>
  The destination of a segment in the buffer: \<open>[load_addr, load_addr + memsz)\<close>, with the
  sum taken in the natural numbers.
\<close>

definition dest_range :: "Elf32_Phdr \<Rightarrow> nat set" where
  "dest_range p = {unat (load_addr p) ..< unat (load_addr p) + unat (p_memsz p)}"

text \<open>
  What the image asks for at address \<open>a\<close> of a segment's destination: the file data first,
  zero after them.
\<close>

definition segment_byte :: "bytes \<Rightarrow> Elf32_Phdr \<Rightarrow> nat \<Rightarrow> u8" where
  "segment_byte f p a =
     (if a < unat (load_addr p) + unat (p_filesz p)
      then f (unat (p_offset p) + (a - unat (load_addr p))) else 0)"

text \<open>
  An active edge: after the clock toggle of an iteration the clock is high and the reset
  is released.
\<close>

definition active_edge :: "'d sim_state \<Rightarrow> bool" where
  "active_edge s \<longleftrightarrow> clk s \<and> resetn s"

text \<open>
  An active edge on which the device asserts \<^verbatim>\<open>trace_valid\<close>.
\<close>

definition traced_edge :: "'d dut \<Rightarrow> 'd sim_state \<Rightarrow> bool" where
  "traced_edge D s \<longleftrightarrow> clk s \<and> resetn s \<and> trace_valid D (model s)"

definition is_hex_digit :: "char \<Rightarrow> bool" where
  "is_hex_digit c \<longleftrightarrow> c \<in> set ''0123456789abcdef''"

text \<open>
  Following the words of the specification (\<^verbatim>\<open>--timeout=N\<close> must parse as a positive
  integer): the whole of \<open>N\<close> is a decimal numeral, with an optional plus sign, whose
  value is positive. The code does not use this notion; it is what the claim about
  \<^verbatim>\<open>--timeout=N\<close> is compared with.
\<close>

definition parses_as_positive_integer :: "string \<Rightarrow> bool" where
  "parses_as_positive_integer s \<longleftrightarrow>
     (let digits = (if take 1 s = ''+'' then drop 1 s else s)
      in digits \<noteq> [] \<and> list_all isdigit digits \<and> 0 < decimal_prefix 0 digits)"

section \<open>Concrete images, devices and command lines\<close>

text \<open>
  An image with two loadable segments: four bytes of text at address 0 (file offset 116)
  and, right after it, a segment of two file bytes and eight bytes in memory (file offset
  120).
\<close>

definition firmware_image :: bytes where
  "firmware_image = sparse
     [(0, 0x7F), (1, 0x45), (2, 0x4C), (3, 0x46), (4, 1), (18, 0xF3), (28, 52), (44, 2),
      (52, 1), (56, 116), (68, 4), (72, 4),
      (84, 1), (88, 120), (92, 4), (96, 4), (100, 2), (104, 8),
      (116, 0x13), (120, 0xAB), (121, 0xCD)]"

text \<open>
  An image whose only segment is empty and sits exactly at the end of the buffer
  (\<^verbatim>\<open>p_vaddr = 0x20000\<close>, \<^verbatim>\<open>p_memsz = 0\<close>).
\<close>

definition edge_image :: bytes where
  "edge_image = sparse
     [(0, 0x7F), (1, 0x45), (2, 0x4C), (3, 0x46), (4, 1), (18, 0xF3), (28, 52), (44, 1),
      (52, 1), (56, 84), (62, 2)]"

text \<open>
  An image whose only segment starts at address 16, has four bytes of file data and
  declares \<^verbatim>\<open>p_memsz = 0xFFFFFFF0\<close>, so that the 32-bit sum of address and size is 0.
\<close>

definition wrap_image :: bytes where
  "wrap_image = sparse
     [(0, 0x7F), (1, 0x45), (2, 0x4C), (3, 0x46), (4, 1), (18, 0xF3), (28, 52), (44, 1),
      (52, 1), (56, 84), (60, 16), (68, 4), (72, 0xF0), (73, 0xFF), (74, 0xFF), (75, 0xFF),
      (84, 0xDE), (85, 0xAD), (86, 0xBE), (87, 0xEF)]"

text \<open>
  An image whose only segment, at address 0, has two bytes of file data and declares one
  byte in memory (\<^verbatim>\<open>p_filesz = 2\<close>, \<^verbatim>\<open>p_memsz = 1\<close>).
\<close>

definition short_image :: bytes where
  "short_image = sparse
     [(0, 0x7F), (1, 0x45), (2, 0x4C), (3, 0x46), (4, 1), (18, 0xF3), (28, 52), (44, 1),
      (52, 1), (56, 84), (68, 2), (72, 1),
      (84, 0xA5), (85, 0x5A)]"

text \<open>
  The first image again, declared for another machine (\<^verbatim>\<open>e_machine = 62\<close>).
\<close>

definition foreign_image :: bytes where
  "foreign_image = firmware_image(18 := 0x3E)"

text \<open>
  A device that counts its active edges and calls \<^verbatim>\<open>$finish\<close> on the first one.
\<close>

definition one_cycle_device :: "nat dut" where
  "one_cycle_device = \<lparr> eval = (\<lambda>clk resetn d. if clk \<and> resetn then d + 1 else d),
     gotFinish = (\<lambda>d. 1 \<le> d), trace_valid = (\<lambda>d. True), trace_data = (\<lambda>d. 0x123456789) \<rparr>"

definition budget_one :: options where
  "budget_one = \<lparr> tfp = False, trace_fd = True, verbose = False, timeout_cycles = 1 \<rparr>"

text \<open>
  A device that counts its active edges, never finishes, and presents the count on the
  trace port whenever it is odd.
\<close>

definition never_finishing_device :: "nat dut" where
  "never_finishing_device = \<lparr> eval = (\<lambda>clk resetn d. if clk \<and> resetn then d + 1 else d),
     gotFinish = (\<lambda>d. False), trace_valid = (\<lambda>d. odd d), trace_data = (\<lambda>d. of_nat d) \<rparr>"

definition budget_three :: options where
  "budget_three = \<lparr> tfp = True, trace_fd = True, verbose = True, timeout_cycles = 3 \<rparr>"

text \<open>
  A test bench around the never finishing device, with one file.
\<close>

definition bench_env :: "nat env" where
  "bench_env = \<lparr> files = (\<lambda>name. if name = ''firmware.elf'' then Mapped firmware_image else OpenFails),
     device = never_finishing_device, new_model = 0, model_memory = (\<lambda>m a. 0),
     with_memory = (\<lambda>m mem. m),
     commandArgsPlusMatch = (\<lambda>argv prefix. find (\<lambda>a. take (1 + length prefix) a = CHR ''+'' # prefix) argv),
     fopen_trace = True \<rparr>"

section \<open>Lemmas about the loader\<close>

lemma unat_memsz_minus_filesz:
  "unat (p_filesz p) \<le> unat (p_memsz p) \<Longrightarrow>
     unat (p_memsz p - p_filesz p) = unat (p_memsz p) - unat (p_filesz p)"
  by (simp add: unat_sub word_le_nat_alt)

lemma copy_segment_outside:
  assumes "unat (p_filesz p) \<le> unat (p_memsz p)" and "a \<notin> dest_range p"
  shows "copy_segment f p mem a = mem a"
  using assms
  by (auto simp: copy_segment_def Let_def memcpy_def memset_def dest_range_def
      unat_memsz_minus_filesz)

lemma copy_segment_inside:
  assumes "unat (p_filesz p) \<le> unat (p_memsz p)" and "a \<in> dest_range p"
  shows "copy_segment f p mem a = segment_byte f p a"
  using assms
  by (auto simp: copy_segment_def Let_def memcpy_def memset_def dest_range_def
      unat_memsz_minus_filesz segment_byte_def)

text \<open>
  The loop of \<^verbatim>\<open>load\<close>, by computation induction: when it returns true every loadable
  segment has passed the test; a byte that no later segment touches keeps its value; a
  byte in the destination of exactly one segment gets what that segment asks for.
\<close>

lemma load_segments_returned:
  "returned (load_segments f ehdr i mem) \<Longrightarrow> i \<le> j \<Longrightarrow> loadable f ehdr j \<Longrightarrow>
     \<not> exceeds_bounds (phdr f ehdr j)"
proof (induction f ehdr i mem rule: load_segments.induct)
  case (1 f ehdr i mem)
  show ?case
  proof (cases "i = j")
    case True
    with "1.prems" show ?thesis
      by (subst (asm) load_segments.simps) (auto simp: loadable_def split: if_splits)
  next
    case False
    with "1.prems" have lt: "i < unat (e_phnum ehdr)" and le: "i + 1 \<le> j"
      by (auto simp: loadable_def)
    show ?thesis
    proof (cases "p_type (phdr f ehdr i) = PT_LOAD")
      case True
      with "1.prems"(1) lt have nb: "\<not> exceeds_bounds (phdr f ehdr i)"
        by (subst (asm) load_segments.simps) (auto split: if_splits)
      with "1.prems"(1) lt True
      have "returned (load_segments f ehdr (i + 1) (copy_segment f (phdr f ehdr i) mem))"
        by (subst (asm) load_segments.simps) simp
      from "1.IH"(1)[OF lt True nb this le "1.prems"(3)] show ?thesis .
    next
      case False
      with "1.prems"(1) lt have "returned (load_segments f ehdr (i + 1) mem)"
        by (subst (asm) load_segments.simps) simp
      from "1.IH"(2)[OF lt False this le "1.prems"(3)] show ?thesis .
    qed
  qed
qed

lemma load_segments_frame:
  "(\<And>j. i \<le> j \<Longrightarrow> loadable f ehdr j \<Longrightarrow>
       unat (p_filesz (phdr f ehdr j)) \<le> unat (p_memsz (phdr f ehdr j)) \<and> a \<notin> dest_range (phdr f ehdr j)) \<Longrightarrow>
     memory (load_segments f ehdr i mem) a = mem a"
proof (induction f ehdr i mem rule: load_segments.induct)
  case (1 f ehdr i mem)
  show ?case
  proof (cases "i < unat (e_phnum ehdr)")
    case False
    then show ?thesis by (subst load_segments.simps) simp
  next
    case lt: True
    have later: "\<And>j. i + 1 \<le> j \<Longrightarrow> loadable f ehdr j \<Longrightarrow>
       unat (p_filesz (phdr f ehdr j)) \<le> unat (p_memsz (phdr f ehdr j)) \<and> a \<notin> dest_range (phdr f ehdr j)"
      using "1.prems" by simp
    show ?thesis
    proof (cases "p_type (phdr f ehdr i) = PT_LOAD")
      case False
      with lt "1.IH"(2)[OF lt False later] show ?thesis
        by (subst load_segments.simps) simp
    next
      case True
      with lt have li: "loadable f ehdr i" by (simp add: loadable_def)
      from "1.prems"[OF le_refl li]
      have here: "copy_segment f (phdr f ehdr i) mem a = mem a"
        by (simp add: copy_segment_outside)
      show ?thesis
      proof (cases "exceeds_bounds (phdr f ehdr i)")
        case True
        with lt \<open>p_type (phdr f ehdr i) = PT_LOAD\<close> show ?thesis
          by (subst load_segments.simps) simp
      next
        case False
        with lt True "1.IH"(1)[OF lt True False later] here show ?thesis
          by (subst load_segments.simps) simp
      qed
    qed
  qed
qed

lemma load_segments_inside:
  "returned (load_segments f ehdr i mem) \<Longrightarrow> i \<le> j \<Longrightarrow> loadable f ehdr j \<Longrightarrow>
   a \<in> dest_range (phdr f ehdr j) \<Longrightarrow>
   (\<And>k. i \<le> k \<Longrightarrow> loadable f ehdr k \<Longrightarrow>
       unat (p_filesz (phdr f ehdr k)) \<le> unat (p_memsz (phdr f ehdr k)) \<and>
       (k \<noteq> j \<longrightarrow> a \<notin> dest_range (phdr f ehdr k))) \<Longrightarrow>
   memory (load_segments f ehdr i mem) a = segment_byte f (phdr f ehdr j) a"
proof (induction f ehdr i mem rule: load_segments.induct)
  case (1 f ehdr i mem)
  from "1.prems"(2,3) have lt: "i < unat (e_phnum ehdr)"
    by (simp add: loadable_def)
  have later: "\<And>k. i + 1 \<le> k \<Longrightarrow> loadable f ehdr k \<Longrightarrow>
       unat (p_filesz (phdr f ehdr k)) \<le> unat (p_memsz (phdr f ehdr k)) \<and>
       (k \<noteq> j \<longrightarrow> a \<notin> dest_range (phdr f ehdr k))"
    using "1.prems"(5) by simp
  show ?case
  proof (cases "p_type (phdr f ehdr i) = PT_LOAD")
    case False
    with "1.prems"(2,3) have le: "i + 1 \<le> j"
      by (cases "i = j") (auto simp: loadable_def)
    from "1.prems"(1) lt False have "returned (load_segments f ehdr (i + 1) mem)"
      by (subst (asm) load_segments.simps) simp
    from "1.IH"(2)[OF lt False this le "1.prems"(3,4) later] lt False show ?thesis
      by (subst load_segments.simps) simp
  next
    case True
    with lt have li: "loadable f ehdr i" by (simp add: loadable_def)
    from "1.prems"(1) lt True have nb: "\<not> exceeds_bounds (phdr f ehdr i)"
      by (subst (asm) load_segments.simps) (auto split: if_splits)
    with "1.prems"(1) lt True
    have ret: "returned (load_segments f ehdr (i + 1) (copy_segment f (phdr f ehdr i) mem))"
      by (subst (asm) load_segments.simps) simp
    have unfold: "load_segments f ehdr i mem =
        load_segments f ehdr (i + 1) (copy_segment f (phdr f ehdr i) mem)"
      using lt True nb by (subst load_segments.simps) simp
    show ?thesis
    proof (cases "i = j")
      case False
      with "1.prems"(2) have le: "i + 1 \<le> j" by simp
      from "1.IH"(1)[OF lt True nb ret le "1.prems"(3,4) later] unfold show ?thesis
        by simp
    next
      case eq: True
      have rest: "\<And>k. i + 1 \<le> k \<Longrightarrow> loadable f ehdr k \<Longrightarrow>
         unat (p_filesz (phdr f ehdr k)) \<le> unat (p_memsz (phdr f ehdr k)) \<and>
         a \<notin> dest_range (phdr f ehdr k)"
        using later eq by auto
      have "memory (load_segments f ehdr (i + 1) (copy_segment f (phdr f ehdr i) mem)) a =
          copy_segment f (phdr f ehdr i) mem a"
        by (rule load_segments_frame) (use rest in blast)
      also have "\<dots> = segment_byte f (phdr f ehdr i) a"
        using "1.prems"(5)[OF le_refl li] "1.prems"(4) eq
        by (simp add: copy_segment_inside)
      finally show ?thesis using unfold eq by simp
    qed
  qed
qed

lemma load_segments_succeeds:
  "(\<And>j. i \<le> j \<Longrightarrow> loadable f ehdr j \<Longrightarrow> \<not> exceeds_bounds (phdr f ehdr j)) \<Longrightarrow>
     returned (load_segments f ehdr i mem)"
proof (induction f ehdr i mem rule: load_segments.induct)
  case (1 f ehdr i mem)
  show ?case
  proof (cases "i < unat (e_phnum ehdr)")
    case False
    then show ?thesis by (subst load_segments.simps) simp
  next
    case lt: True
    have later: "\<And>j. i + 1 \<le> j \<Longrightarrow> loadable f ehdr j \<Longrightarrow> \<not> exceeds_bounds (phdr f ehdr j)"
      using "1.prems" by simp
    show ?thesis
    proof (cases "p_type (phdr f ehdr i) = PT_LOAD")
      case False
      with lt "1.IH"(2)[OF lt False later] show ?thesis
        by (subst load_segments.simps) simp
    next
      case True
      with lt have "loadable f ehdr i" by (simp add: loadable_def)
      from "1.prems"[OF le_refl this] have nb: "\<not> exceeds_bounds (phdr f ehdr i)" .
      with lt True "1.IH"(1)[OF lt True nb later] show ?thesis
        by (subst load_segments.simps) simp
    qed
  qed
qed

lemma load_segments_fails:
  "i0 \<le> j \<Longrightarrow> loadable f ehdr j \<Longrightarrow> exceeds_bounds (phdr f ehdr j) \<Longrightarrow>
   \<exists>i. i0 \<le> i \<and> i \<le> j \<and> loadable f ehdr i \<and> exceeds_bounds (phdr f ehdr i) \<and>
       (\<forall>k. i0 \<le> k \<and> k < i \<and> loadable f ehdr k \<longrightarrow> \<not> exceeds_bounds (phdr f ehdr k)) \<and>
       \<not> returned (load_segments f ehdr i0 mem) \<and>
       stderr (load_segments f ehdr i0 mem) =
         [SegmentExceeds i (load_addr (phdr f ehdr i)) (p_memsz (phdr f ehdr i))]"
proof (induction f ehdr i0 mem rule: load_segments.induct)
  case (1 f ehdr i0 mem)
  from "1.prems"(1,2) have lt: "i0 < unat (e_phnum ehdr)"
    by (simp add: loadable_def)
  let ?p = "phdr f ehdr i0"
  show ?case
  proof (cases "p_type ?p = PT_LOAD \<and> exceeds_bounds ?p")
    case True
    with lt have "loadable f ehdr i0" by (simp add: loadable_def)
    moreover from True lt have "\<not> returned (load_segments f ehdr i0 mem)"
      "stderr (load_segments f ehdr i0 mem) = [SegmentExceeds i0 (load_addr ?p) (p_memsz ?p)]"
      by (subst load_segments.simps, simp)+
    ultimately show ?thesis using True "1.prems"(1)
      by (intro exI[of _ i0]) auto
  next
    case False
    with "1.prems" have le: "i0 + 1 \<le> j"
      by (cases "i0 = j") (auto simp: loadable_def)
    have here: "loadable f ehdr i0 \<longrightarrow> \<not> exceeds_bounds ?p"
      using False by (simp add: loadable_def)
    have "\<exists>mem'. load_segments f ehdr i0 mem = load_segments f ehdr (i0 + 1) mem' \<and>
        (\<exists>i. i0 + 1 \<le> i \<and> i \<le> j \<and> loadable f ehdr i \<and> exceeds_bounds (phdr f ehdr i) \<and>
       (\<forall>k. i0 + 1 \<le> k \<and> k < i \<and> loadable f ehdr k \<longrightarrow> \<not> exceeds_bounds (phdr f ehdr k)) \<and>
       \<not> returned (load_segments f ehdr (i0 + 1) mem') \<and>
       stderr (load_segments f ehdr (i0 + 1) mem') =
         [SegmentExceeds i (load_addr (phdr f ehdr i)) (p_memsz (phdr f ehdr i))])"
    proof (cases "p_type ?p = PT_LOAD")
      case True
      with False have nb: "\<not> exceeds_bounds ?p" by simp
      have "load_segments f ehdr i0 mem = load_segments f ehdr (i0 + 1) (copy_segment f ?p mem)"
        using lt True nb by (subst load_segments.simps) simp
      with "1.IH"(1)[OF lt True nb le "1.prems"(2,3)] show ?thesis by blast
    next
      case nl: False
      have "load_segments f ehdr i0 mem = load_segments f ehdr (i0 + 1) mem"
        using lt nl by (subst load_segments.simps) simp
      with "1.IH"(2)[OF lt nl le "1.prems"(2,3)] show ?thesis by blast
    qed
    then obtain mem' i where eq: "load_segments f ehdr i0 mem = load_segments f ehdr (i0 + 1) mem'"
      and i: "i0 + 1 \<le> i" "i \<le> j" "loadable f ehdr i" "exceeds_bounds (phdr f ehdr i)"
        "\<forall>k. i0 + 1 \<le> k \<and> k < i \<and> loadable f ehdr k \<longrightarrow> \<not> exceeds_bounds (phdr f ehdr k)"
        "\<not> returned (load_segments f ehdr (i0 + 1) mem')"
        "stderr (load_segments f ehdr (i0 + 1) mem') =
         [SegmentExceeds i (load_addr (phdr f ehdr i)) (p_memsz (phdr f ehdr i))]"
      by blast
    have "\<forall>k. i0 \<le> k \<and> k < i \<and> loadable f ehdr k \<longrightarrow> \<not> exceeds_bounds (phdr f ehdr k)"
    proof (intro allI impI)
      fix k assume k: "i0 \<le> k \<and> k < i \<and> loadable f ehdr k"
      show "\<not> exceeds_bounds (phdr f ehdr k)"
      proof (cases "k = i0")
        case True with here k show ?thesis by simp
      next
        case False with k i(5) show ?thesis by simp
      qed
    qed
    with i eq show ?thesis
      by (intro exI[of _ i]) simp
  qed
qed

lemma exceeds_bounds_within:
  assumes "unat (load_addr p) + unat (p_memsz p) \<le> MEM_SIZE"
  shows "exceeds_bounds p \<longleftrightarrow> MEM_SIZE \<le> unat (load_addr p)"
proof -
  have "unat (load_addr p) + unat (p_memsz p) < 2 ^ 32"
    using assms by (simp add: MEM_SIZE_def)
  then have "unat (load_addr p + p_memsz p) = unat (load_addr p) + unat (p_memsz p)"
    by (simp add: unat_add_lem [THEN iffD1])
  with assms show ?thesis by (auto simp: exceeds_bounds_def)
qed

text \<open>
  As long as the sum of address and size stays below \<open>2 ^ 32\<close> the test of the code is the
  test on the unbounded sum.
\<close>

lemma exceeds_bounds_without_wrap:
  assumes "unat (load_addr p) + unat (p_memsz p) < 2 ^ 32"
  shows "exceeds_bounds p \<longleftrightarrow> MEM_SIZE < unat (load_addr p) + unat (p_memsz p) \<or>
     MEM_SIZE \<le> unat (load_addr p)"
proof -
  from assms have "unat (load_addr p + p_memsz p) = unat (load_addr p) + unat (p_memsz p)"
    by (simp add: unat_add_lem [THEN iffD1])
  then show ?thesis by (auto simp: exceeds_bounds_def)
qed

lemma load_mapped_valid:
  "valid_elf32 ehdr \<Longrightarrow>
     returned (load_mapped ehdr f mem) = returned (load_segments f ehdr 0 (memset mem 0 0 MEM_SIZE)) \<and>
     memory (load_mapped ehdr f mem) = memory (load_segments f ehdr 0 (memset mem 0 0 MEM_SIZE))"
  by (simp add: load_mapped_def valid_elf32_def Let_def)

lemma phdr_machine: "phdr f (ehdr\<lparr>e_machine := m\<rparr>) i = phdr f ehdr i"
  by (simp add: phdr_def)

lemma load_segments_machine:
  "load_segments f (ehdr\<lparr>e_machine := m\<rparr>) i mem = load_segments f ehdr i mem"
proof (induction f ehdr i mem rule: load_segments.induct)
  case (1 f ehdr i mem)
  show ?case
    using "1.IH"
    by (subst load_segments.simps, subst (2) load_segments.simps) (simp add: phdr_machine)
qed

subsection \<open>The concrete images\<close>

lemma firmware_image_ehdr:
  "e_ident (read_Ehdr firmware_image) = [0x7F, 0x45, 0x4C, 0x46, 1, 0, 0, 0, 0, 0, 0, 0, 0, 0, 0, 0]"
  "e_phnum (read_Ehdr firmware_image) = 2"
  "e_phoff (read_Ehdr firmware_image) = 52"
  "e_machine (read_Ehdr firmware_image) = 243"
  by (simp_all add: read_Ehdr_def firmware_image_def sparse_def rd16_def rd32_def upt_rec)

lemma firmware_image_phdr0:
  "phdr firmware_image (read_Ehdr firmware_image) 0 =
     \<lparr> p_type = 1, p_offset = 116, p_vaddr = 0, p_paddr = 0, p_filesz = 4, p_memsz = 4,
       p_flags = 0, p_align = 0 \<rparr>"
  by (simp add: phdr_def firmware_image_ehdr read_Phdr_def)
     (simp add: firmware_image_def sparse_def rd32_def)

lemma firmware_image_phdr1:
  "phdr firmware_image (read_Ehdr firmware_image) (Suc 0) =
     \<lparr> p_type = 1, p_offset = 120, p_vaddr = 4, p_paddr = 4, p_filesz = 2, p_memsz = 8,
       p_flags = 0, p_align = 0 \<rparr>"
  by (simp add: phdr_def firmware_image_ehdr read_Phdr_def)
     (simp add: firmware_image_def sparse_def rd32_def)

lemma firmware_image_loadable:
  "loadable firmware_image (read_Ehdr firmware_image) j \<longleftrightarrow> j = 0 \<or> j = Suc 0"
proof -
  have "j < 2 \<longleftrightarrow> j = 0 \<or> j = Suc 0" by arith
  then show ?thesis
    using firmware_image_phdr0 firmware_image_phdr1
    by (auto simp: loadable_def firmware_image_ehdr PT_LOAD_def)
qed

lemma firmware_image_data:
  "firmware_image 116 = 0x13" "firmware_image 120 = 0xAB"
  by (simp_all add: firmware_image_def sparse_def)

lemma edge_image_ehdr:
  "e_ident (read_Ehdr edge_image) = [0x7F, 0x45, 0x4C, 0x46, 1, 0, 0, 0, 0, 0, 0, 0, 0, 0, 0, 0]"
  "e_phnum (read_Ehdr edge_image) = 1"
  "e_phoff (read_Ehdr edge_image) = 52"
  by (simp_all add: read_Ehdr_def edge_image_def sparse_def rd16_def rd32_def upt_rec)

lemma edge_image_phdr0:
  "phdr edge_image (read_Ehdr edge_image) 0 =
     \<lparr> p_type = 1, p_offset = 84, p_vaddr = 0x20000, p_paddr = 0, p_filesz = 0, p_memsz = 0,
       p_flags = 0, p_align = 0 \<rparr>"
  by (simp add: phdr_def edge_image_ehdr read_Phdr_def)
     (simp add: edge_image_def sparse_def rd32_def)

lemma wrap_image_ehdr:
  "e_ident (read_Ehdr wrap_image) = [0x7F, 0x45, 0x4C, 0x46, 1, 0, 0, 0, 0, 0, 0, 0, 0, 0, 0, 0]"
  "e_phnum (read_Ehdr wrap_image) = 1"
  "e_phoff (read_Ehdr wrap_image) = 52"
  "e_machine (read_Ehdr wrap_image) = 243"
  by (simp_all add: read_Ehdr_def wrap_image_def sparse_def rd16_def rd32_def upt_rec)

lemma wrap_image_phdr0:
  "phdr wrap_image (read_Ehdr wrap_image) 0 =
     \<lparr> p_type = 1, p_offset = 84, p_vaddr = 16, p_paddr = 0, p_filesz = 4, p_memsz = 0xFFFFFFF0,
       p_flags = 0, p_align = 0 \<rparr>"
  by (simp add: phdr_def wrap_image_ehdr read_Phdr_def)
     (simp add: wrap_image_def sparse_def rd32_def)

lemma wrap_image_data:
  "wrap_image 84 = 0xDE" "wrap_image 87 = 0xEF"
  by (simp_all add: wrap_image_def sparse_def)

lemma wrap_image_segments:
  "load_segments wrap_image (read_Ehdr wrap_image) 0 mem =
     \<lparr> returned = True,
       memory = copy_segment wrap_image (phdr wrap_image (read_Ehdr wrap_image) 0) mem,
       stderr = [] \<rparr>"
proof -
  have nb: "\<not> exceeds_bounds (phdr wrap_image (read_Ehdr wrap_image) 0)"
    by (simp add: wrap_image_phdr0 exceeds_bounds_def load_addr_def MEM_SIZE_def)
  have "load_segments wrap_image (read_Ehdr wrap_image) 0 mem =
      load_segments wrap_image (read_Ehdr wrap_image) (0 + 1)
        (copy_segment wrap_image (phdr wrap_image (read_Ehdr wrap_image) 0) mem)"
    using nb by (subst load_segments.simps) (simp add: wrap_image_ehdr wrap_image_phdr0 PT_LOAD_def)
  also have "\<dots> = \<lparr> returned = True,
       memory = copy_segment wrap_image (phdr wrap_image (read_Ehdr wrap_image) 0) mem,
       stderr = [] \<rparr>"
    by (subst load_segments.simps) (simp add: wrap_image_ehdr)
  finally show ?thesis .
qed

lemma short_image_ehdr:
  "e_ident (read_Ehdr short_image) = [0x7F, 0x45, 0x4C, 0x46, 1, 0, 0, 0, 0, 0, 0, 0, 0, 0, 0, 0]"
  "e_phnum (read_Ehdr short_image) = 1"
  "e_phoff (read_Ehdr short_image) = 52"
  "e_machine (read_Ehdr short_image) = 243"
  by (simp_all add: read_Ehdr_def short_image_def sparse_def rd16_def rd32_def upt_rec)

lemma short_image_phdr0:
  "phdr short_image (read_Ehdr short_image) 0 =
     \<lparr> p_type = 1, p_offset = 84, p_vaddr = 0, p_paddr = 0, p_filesz = 2, p_memsz = 1,
       p_flags = 0, p_align = 0 \<rparr>"
  by (simp add: phdr_def short_image_ehdr read_Phdr_def)
     (simp add: short_image_def sparse_def rd32_def)

lemma short_image_data:
  "short_image 84 = 0xA5" "short_image 85 = 0x5A"
  by (simp_all add: short_image_def sparse_def)

lemma short_image_segments:
  "load_segments short_image (read_Ehdr short_image) 0 mem =
     \<lparr> returned = True,
       memory = copy_segment short_image (phdr short_image (read_Ehdr short_image) 0) mem,
       stderr = [] \<rparr>"
proof -
  have nb: "\<not> exceeds_bounds (phdr short_image (read_Ehdr short_image) 0)"
    by (simp add: short_image_phdr0 exceeds_bounds_def load_addr_def MEM_SIZE_def)
  have "load_segments short_image (read_Ehdr short_image) 0 mem =
      load_segments short_image (read_Ehdr short_image) (0 + 1)
        (copy_segment short_image (phdr short_image (read_Ehdr short_image) 0) mem)"
    using nb by (subst load_segments.simps) (simp add: short_image_ehdr short_image_phdr0 PT_LOAD_def)
  also have "\<dots> = \<lparr> returned = True,
       memory = copy_segment short_image (phdr short_image (read_Ehdr short_image) 0) mem,
       stderr = [] \<rparr>"
    by (subst load_segments.simps) (simp add: short_image_ehdr)
  finally show ?thesis .
qed

lemma foreign_image_ehdr:
  "e_ident (read_Ehdr foreign_image) = [0x7F, 0x45, 0x4C, 0x46, 1, 0, 0, 0, 0, 0, 0, 0, 0, 0, 0, 0]"
  "e_phnum (read_Ehdr foreign_image) = 2"
  "e_phoff (read_Ehdr foreign_image) = 52"
  "e_machine (read_Ehdr foreign_image) = 62"
  by (simp_all add: read_Ehdr_def foreign_image_def firmware_image_def sparse_def rd16_def
      rd32_def upt_rec)

lemma foreign_image_phdr:
  "phdr foreign_image (read_Ehdr foreign_image) 0 =
     \<lparr> p_type = 1, p_offset = 116, p_vaddr = 0, p_paddr = 0, p_filesz = 4, p_memsz = 4,
       p_flags = 0, p_align = 0 \<rparr>"
  "phdr foreign_image (read_Ehdr foreign_image) (Suc 0) =
     \<lparr> p_type = 1, p_offset = 120, p_vaddr = 4, p_paddr = 4, p_filesz = 2, p_memsz = 8,
       p_flags = 0, p_align = 0 \<rparr>"
  by (simp_all add: phdr_def foreign_image_ehdr read_Phdr_def)
     (simp_all add: foreign_image_def firmware_image_def sparse_def rd32_def)

lemma foreign_image_loads:
  "returned (load_mapped ((read_Ehdr foreign_image)\<lparr>e_machine := EM_RISCV\<rparr>) foreign_image mem) \<and>
   stderr (load_mapped ((read_Ehdr foreign_image)\<lparr>e_machine := EM_RISCV\<rparr>) foreign_image mem) = []"
proof -
  let ?e = "read_Ehdr foreign_image"
  have nb: "\<not> exceeds_bounds (phdr foreign_image ?e 0)"
      "\<not> exceeds_bounds (phdr foreign_image ?e (Suc 0))"
    by (simp_all add: foreign_image_phdr exceeds_bounds_def load_addr_def MEM_SIZE_def)
  have types: "p_type (phdr foreign_image ?e 0) = PT_LOAD"
      "p_type (phdr foreign_image ?e (Suc 0)) = PT_LOAD"
    by (simp_all add: foreign_image_phdr PT_LOAD_def)
  have n: "unat (e_phnum ?e) = 2"
    by (simp add: foreign_image_ehdr)
  have "load_segments foreign_image ?e 2 m = \<lparr> returned = True, memory = m, stderr = [] \<rparr>" for m
    by (subst load_segments.simps) (simp add: n)
  then have "returned (load_segments foreign_image ?e (Suc 0) m) \<and>
      stderr (load_segments foreign_image ?e (Suc 0) m) = []" for m
    using nb(2) types(2) by (subst load_segments.simps, simp add: n)+
  then have "returned (load_segments foreign_image ?e 0 m) \<and>
      stderr (load_segments foreign_image ?e 0 m) = []" for m
    using nb(1) types(1) by (subst load_segments.simps, simp add: n)+
  then show ?thesis
    by (simp add: load_mapped_def load_segments_machine foreign_image_ehdr SELFMAG_def
        ELFMAG_def EI_CLASS_def ELFCLASS32_def Let_def)
qed

section \<open>Lemmas about the simulation loop\<close>

lemma sim_run_running:
  "running D opts s \<Longrightarrow> sim_run D opts s = sim_step D opts s # sim_run D opts (sim_step D opts s)"
  by (subst sim_run.simps) simp

lemma sim_run_stopped: "\<not> running D opts s \<Longrightarrow> sim_run D opts s = []"
  by (subst sim_run.simps) simp

lemma sim_loop_running:
  "running D opts s \<Longrightarrow> sim_loop D opts s = sim_loop D opts (sim_step D opts s)"
  by (subst sim_loop.simps) simp

lemma sim_loop_stopped: "\<not> running D opts s \<Longrightarrow> sim_loop D opts s = s"
  by (subst sim_loop.simps) simp

text \<open>
  The loop ends in the last of the states it passes through, and there its condition is
  false.
\<close>

lemma sim_loop_last: "sim_loop D opts s = last (s # sim_run D opts s)"
proof (induction D opts s rule: sim_run.induct)
  case (1 D opts s)
  show ?case
  proof (cases "running D opts s")
    case True
    with "1.IH" show ?thesis
      by (simp add: sim_loop_running sim_run_running)
  next
    case False
    then show ?thesis by (simp add: sim_loop_stopped sim_run_stopped)
  qed
qed

lemma sim_loop_not_running: "\<not> running D opts (sim_loop D opts s)"
proof (induction D opts s rule: sim_loop.induct)
  case (1 D opts s)
  then show ?case
    by (cases "running D opts s") (simp_all add: sim_loop_running sim_loop_stopped)
qed

lemma sim_step_fields:
  "clk (sim_step D opts s) = (\<not> clk s)"
  "resetn (sim_step D opts s) = (200 <s time s \<or> resetn s)"
  "time (sim_step D opts s) = time s + 5"
  "cycle (sim_step D opts s) = cycle s + (if active_edge (sim_step D opts s) then 1 else 0)"
  "trace (sim_step D opts s) = trace s @
     (if trace_fd opts \<and> traced_edge D (sim_step D opts s)
      then [printf_9_9lx (ucast (trace_data D (model (sim_step D opts s))))] else [])"
  by (auto simp: sim_step_def Let_def active_edge_def traced_edge_def)

lemma sim_run_nth:
  "Suc k < length (s # sim_run D opts s) \<Longrightarrow>
     (s # sim_run D opts s) ! Suc k = sim_step D opts ((s # sim_run D opts s) ! k) \<and>
     running D opts ((s # sim_run D opts s) ! k)"
proof (induction k arbitrary: s)
  case 0
  then have "running D opts s"
    by (cases "running D opts s") (simp_all add: sim_run_stopped)
  then show ?case by (simp add: sim_run_running)
next
  case (Suc k)
  then have run: "running D opts s"
    by (cases "running D opts s") (simp_all add: sim_run_stopped)
  with Suc.prems have "Suc k < length (sim_step D opts s # sim_run D opts (sim_step D opts s))"
    by (simp add: sim_run_running)
  from Suc.IH[OF this] run show ?case
    by (simp add: sim_run_running)
qed

lemma sim_loop_cycle_count:
  "cycle (sim_loop D opts s) = cycle s + int (length (filter active_edge (sim_run D opts s)))"
proof (induction D opts s rule: sim_run.induct)
  case (1 D opts s)
  show ?case
  proof (cases "running D opts s")
    case True
    with "1.IH" show ?thesis
      by (simp add: sim_loop_running sim_run_running sim_step_fields)
  next
    case False
    then show ?thesis by (simp add: sim_loop_stopped sim_run_stopped)
  qed
qed

lemma sim_loop_time:
  "time (sim_loop D opts s) = time s + 5 * of_nat (length (sim_run D opts s))"
proof (induction D opts s rule: sim_run.induct)
  case (1 D opts s)
  show ?case
  proof (cases "running D opts s")
    case True
    with "1.IH" show ?thesis
      by (simp add: sim_loop_running sim_run_running sim_step_fields algebra_simps)
  next
    case False
    then show ?thesis by (simp add: sim_loop_stopped sim_run_stopped)
  qed
qed

lemma sim_loop_trace:
  "trace (sim_loop D opts s) = trace s @
     (if trace_fd opts
      then map (\<lambda>x. printf_9_9lx (ucast (trace_data D (model x))))
             (filter (traced_edge D) (sim_run D opts s))
      else [])"
proof (induction D opts s rule: sim_run.induct)
  case (1 D opts s)
  show ?case
  proof (cases "running D opts s")
    case True
    with "1.IH" show ?thesis
      by (simp add: sim_loop_running sim_run_running sim_step_fields)
  next
    case False
    then show ?thesis by (simp add: sim_loop_stopped sim_run_stopped)
  qed
qed

lemma sim_run_cycles:
  "sorted_wrt (<) (map cycle (filter active_edge (sim_run D opts s))) \<and>
   (\<forall>x \<in> set (sim_run D opts s). cycle s \<le> cycle x \<and> (active_edge x \<longrightarrow> cycle s < cycle x))"
proof (induction D opts s rule: sim_run.induct)
  case (1 D opts s)
  show ?case
  proof (cases "running D opts s")
    case True
    from "1.IH"[OF True] show ?thesis
      by (auto simp: sim_run_running[OF True] sim_step_fields split: if_splits)
  next
    case False
    then show ?thesis by (simp add: sim_run_stopped)
  qed
qed

lemma sim_run_filter_traced:
  "filter (traced_edge D) xs = filter (traced_edge D) (filter active_edge xs)"
  by (induction xs) (auto simp: traced_edge_def active_edge_def)

lemma sim_run_traced_cycles:
  "sorted_wrt (<) (map cycle (filter (traced_edge D) (sim_run D opts s)))"
proof -
  have "sorted_wrt (<) (map cycle (filter active_edge (sim_run D opts s)))"
    using sim_run_cycles[of D opts s] by simp
  then have "sorted_wrt (\<lambda>x y. cycle x < cycle y) (filter active_edge (sim_run D opts s))"
    by (simp add: sorted_wrt_map)
  then have "sorted_wrt (\<lambda>x y. cycle x < cycle y)
      (filter (traced_edge D) (filter active_edge (sim_run D opts s)))"
    by (rule sorted_wrt_filter)
  then show ?thesis
    by (subst sim_run_filter_traced) (simp add: sorted_wrt_map)
qed

lemma sim_loop_cycle_le:
  "cycle s \<le> timeout_cycles opts \<Longrightarrow> cycle (sim_loop D opts s) \<le> timeout_cycles opts"
proof (induction D opts s rule: sim_loop.induct)
  case (1 D opts s)
  show ?case
  proof (cases "running D opts s")
    case True
    then have "cycle (sim_step D opts s) \<le> timeout_cycles opts"
      by (simp add: sim_step_fields running_def)
    with "1.IH"[OF True] True show ?thesis
      by (simp add: sim_loop_running)
  next
    case False
    with "1.prems" show ?thesis by (simp add: sim_loop_stopped)
  qed
qed

lemma never_finishing_exit:
  assumes "0 < timeout_cycles opts" and "\<forall>d. \<not> gotFinish D d"
  shows "cycle (sim_loop D opts (initial_state m)) = timeout_cycles opts"
proof -
  let ?s = "sim_loop D opts (initial_state m)"
  have "cycle (initial_state m) \<le> timeout_cycles opts"
    using assms(1) by (simp add: initial_state_def)
  then have "cycle ?s \<le> timeout_cycles opts"
    by (rule sim_loop_cycle_le)
  moreover have "\<not> running D opts ?s"
    by (rule sim_loop_not_running)
  with assms(2) have "timeout_cycles opts \<le> cycle ?s"
    by (simp add: running_def)
  ultimately show ?thesis by simp
qed

lemma sint_time_of_steps:
  assumes "5 * int n < 2 ^ 31"
  shows "sint (5 * of_nat n :: 32 word) = 5 * int n"
proof -
  have eq: "(word_of_int (5 * int n) :: 32 word) = 5 * of_nat n" by simp
  have "sint (word_of_int (5 * int n) :: 32 word) =
      signed_take_bit (LENGTH(32) - 1) (5 * int n)"
    by (rule sint_sbintrunc')
  also have "\<dots> = 5 * int n"
    using assms by (simp add: signed_take_bit_int_eq_self)
  finally show ?thesis
    by (simp only: eq)
qed

subsection \<open>The trace record\<close>

lemma length_hex_digits: "n < 16 ^ k \<Longrightarrow> length (hex_digits n) \<le> k"
proof (induction k arbitrary: n)
  case 0
  then show ?case by (simp add: hex_digits.simps)
next
  case (Suc k)
  show ?case
  proof (cases "n = 0")
    case True
    then show ?thesis by (simp add: hex_digits.simps)
  next
    case False
    from Suc.prems have "n div 16 < 16 ^ k"
      by (simp add: less_mult_imp_div_less mult.commute)
    from Suc.IH[OF this] False show ?thesis
      by (subst hex_digits.simps) simp
  qed
qed

lemma hex_digit_is_hex: "d < 16 \<Longrightarrow> is_hex_digit (hex_digit d)"
proof -
  assume "d < 16"
  then have "d < length ''0123456789abcdef''" by simp
  then have "''0123456789abcdef'' ! d \<in> set ''0123456789abcdef''"
    by (rule nth_mem)
  then show ?thesis by (simp only: is_hex_digit_def hex_digit_def)
qed

lemma hex_digits_are_hex: "list_all is_hex_digit (hex_digits n)"
proof (induction n rule: hex_digits.induct)
  case (1 n)
  show ?case
  proof (cases "n = 0")
    case True
    then show ?thesis by (simp add: hex_digits.simps)
  next
    case False
    with "1.IH" show ?thesis
      by (subst hex_digits.simps) (simp add: hex_digit_is_hex)
  qed
qed

lemma trace_record_format:
  fixes v :: "36 word"
  shows "length (printf_9_9lx (ucast v)) = 10 \<and>
     list_all is_hex_digit (take 9 (printf_9_9lx (ucast v))) \<and>
     drop 9 (printf_9_9lx (ucast v)) = [CHR 0x0A]"
proof -
  let ?n = "unat (ucast v :: 64 word)"
  have small: "unat v < 2 ^ 36"
    using unsigned_less[of v, where ?'a = nat] by simp
  then have "unat v < 2 ^ 64" by simp
  then have "?n = unat v"
    by (simp add: unsigned_ucast_eq take_bit_nat_eq_self)
  with small have "?n < 16 ^ 9" by simp
  then have len: "length (hex_digits ?n) \<le> 9"
    by (rule length_hex_digits)
  have zero: "is_hex_digit (CHR ''0'')" by (simp add: is_hex_digit_def)
  have digits: "\<forall>c \<in> set (hex_digits ?n). is_hex_digit c"
    using hex_digits_are_hex[of ?n] by (simp add: list_all_iff)
  from len zero digits show ?thesis
    by (auto simp: printf_9_9lx_def Let_def list_all_iff)
qed

text \<open>
  The format pads and never truncates: nine digits are all there is because the pin has 36
  bits.
\<close>

lemma printf_9_9lx_does_not_truncate:
  "printf_9_9lx 0x1000000000 = ''1000000000'' @ [CHR 0x0A]"
  by (simp add: printf_9_9lx_def hex_digits.simps hex_digit_def Let_def)

subsection \<open>Two concrete runs\<close>

text \<open>
  With a budget of one cycle the first device stops the loop after 43 iterations: 42 until
  the reset is released and the clock is low again, and the first active edge.
\<close>

lemma one_cycle_run:
  "sim_loop one_cycle_device budget_one (initial_state 0) =
     \<lparr> clk = True, resetn = True, time = 215, cycle = 1, model = 1, vcd = [],
       trace = [printf_9_9lx 0x123456789], progress = [] \<rparr>"
  by (simp add: sim_loop.simps running_def sim_step_def initial_state_def one_cycle_device_def
      budget_one_def word_sless_alt Let_def)

lemma one_cycle_finished:
  "gotFinish one_cycle_device (model (sim_loop one_cycle_device budget_one (initial_state 0)))"
  by (simp add: one_cycle_run) (simp add: one_cycle_device_def)

text \<open>
  With a budget of three cycles the second device is stopped after 47 iterations.
\<close>

lemma never_finishing_run:
  "sim_loop never_finishing_device budget_three (initial_state 0) =
     \<lparr> clk = True, resetn = True, time = 235, cycle = 3, model = 3,
       vcd = map (\<lambda>k. 5 * of_nat k) [0 ..< 47],
       trace = [printf_9_9lx 1, printf_9_9lx 3], progress = [] \<rparr>"
  by (simp add: sim_loop.simps running_def sim_step_def initial_state_def
      never_finishing_device_def budget_three_def word_sless_alt Let_def upt_rec)

lemma never_finishing_history:
  "map (\<lambda>x. (active_edge x, cycle x)) (sim_run never_finishing_device budget_three (initial_state 0)) =
     replicate 42 (False, 0) @ [(True, 1), (False, 1), (True, 2), (False, 2), (True, 3)]"
  by (simp add: sim_run.simps running_def sim_step_def initial_state_def
      never_finishing_device_def budget_three_def word_sless_alt Let_def active_edge_def
      numeral_eq_Suc)

section \<open>Lemmas about the command line\<close>

lemma parse_args_append:
  "parse_args pre elf_file t = Parsed elf_file' t' \<Longrightarrow>
     parse_args (pre @ rest) elf_file t = parse_args rest elf_file' t'"
proof (induction pre arbitrary: elf_file t)
  case Nil
  then show ?case by simp
next
  case (Cons arg pre)
  then show ?case
    by (auto split: if_splits option.splits)
qed

lemma parse_args_timeout:
  "atoi N = Some v \<Longrightarrow>
     parse_args ((''--timeout='' @ N) # args) elf_file t =
       (if v \<le> 0 then Fatal InvalidTimeout else parse_args args elf_file v)"
  by simp

lemma parse_args_skips_plus:
  "parse_args args elf_file t = parse_args (filter (\<lambda>a. take 1 a \<noteq> ''+'') args) elf_file t"
proof (induction args arbitrary: elf_file t)
  case Nil
  then show ?case by simp
next
  case (Cons arg args)
  show ?case
  proof (cases "take 1 arg = ''+''")
    case True
    then obtain rest where "arg = CHR ''+'' # rest"
      by (cases arg) auto
    with Cons.IH show ?thesis by simp
  next
    case False
    with Cons.IH show ?thesis
      by (auto split: option.splits)
  qed
qed

lemma parse_args_unknown_option:
  "parse_args args elf_file t = Fatal (UnknownOption a) \<Longrightarrow>
     a \<in> set args \<and> take 1 a = ''-'' \<and> a \<noteq> ''-h'' \<and> a \<noteq> ''--help'' \<and> take 10 a \<noteq> ''--timeout=''"
proof (induction args arbitrary: elf_file t)
  case Nil
  then show ?case by simp
next
  case (Cons arg args)
  then show ?case
    by (fastforce split: if_splits option.splits)
qed

lemma parse_args_positive:
  "parse_args args elf_file t = Parsed elf_file' t' \<Longrightarrow> 0 < t \<Longrightarrow> 0 < t'"
proof (induction args arbitrary: elf_file t)
  case Nil
  then show ?case by simp
next
  case (Cons arg args)
  then show ?case
    by (fastforce split: if_splits option.splits)
qed

lemma atoi_examples:
  "atoi ''0'' = Some 0" "atoi ''-5'' = Some (- 5)" "atoi ''5000'' = Some 5000"
  "atoi ''abc'' = Some 0"
  by (simp_all add: atoi_def isspace_def isdigit_def digit_value_def)

text \<open>
  The budget that \<^verbatim>\<open>main\<close> passes on is positive, so a run of \<^verbatim>\<open>main\<close> that loads its image
  and whose device never finishes returns 2.
\<close>

lemma main_timeout_exit:
  fixes env :: "'d env"
  assumes parsed: "parse_args (drop 1 argv) None 1000000 = Parsed (Some elf_file) T"
    and loaded: "returned (load (files env elf_file) (model_memory env (new_model env)))"
    and never: "\<forall>d. \<not> gotFinish (device env) d"
  shows "status (main argv env) = Some ''TIMEOUT'' \<and> exit_code (main argv env) = Some 2"
proof -
  from parse_args_positive[OF parsed] have "0 < T" by simp
  then have "cycle (sim_loop (device env) opts (initial_state m)) = T"
    if "timeout_cycles opts = T" for opts m
    using never_finishing_exit[of opts "device env" m] never that by simp
  with parsed loaded show ?thesis
    by (simp add: main_def run_simulation_def Let_def)
qed

section \<open>The claims\<close>

subsection \<open>C1: what a successful load leaves in the buffer\<close>

text \<open>
  Claim C1 says that after a successful load of a valid 32-bit image whose loadable
  segments lie within the buffer and do not overlap, the file data and the zero fill of
  every segment are in place and every byte outside all loaded segments is zero.
  Counterexample: the image whose only segment, at address 0, has \<^verbatim>\<open>p_filesz = 2\<close> and
  \<^verbatim>\<open>p_memsz = 1\<close> passes the header checks and the bounds test, which looks at \<^verbatim>\<open>p_memsz\<close>
  only; \<^verbatim>\<open>load\<close> returns true and has copied both file bytes, so the byte at address 1,
  which is inside the buffer and outside the segment's range \<open>[0, 1)\<close>, holds \<^verbatim>\<open>0x5A\<close>.
\<close>

theorem file_data_longer_than_the_segment:
  "valid_elf32 (read_Ehdr short_image) \<and>
   unat (e_phnum (read_Ehdr short_image)) = 1 \<and>
   loadable short_image (read_Ehdr short_image) 0 \<and>
   unat (load_addr (phdr short_image (read_Ehdr short_image) 0)) +
     unat (p_memsz (phdr short_image (read_Ehdr short_image) 0)) \<le> MEM_SIZE \<and>
   unat (load_addr (phdr short_image (read_Ehdr short_image) 0)) +
     unat (p_filesz (phdr short_image (read_Ehdr short_image) 0)) \<le> MEM_SIZE \<and>
   returned (load (Mapped short_image) (\<lambda>_. 0xFF)) \<and>
   1 < MEM_SIZE \<and>
   1 \<notin> dest_range (phdr short_image (read_Ehdr short_image) 0) \<and>
   memory (load (Mapped short_image) (\<lambda>_. 0xFF)) 1 = 0x5A"
proof -
  have r: "load (Mapped short_image) (\<lambda>_. 0xFF) =
      \<lparr> returned = True,
        memory = copy_segment short_image (phdr short_image (read_Ehdr short_image) 0)
          (memset (\<lambda>_. 0xFF) 0 0 MEM_SIZE),
        stderr = [] \<rparr>"
    by (simp add: load_def load_mapped_def short_image_ehdr short_image_segments
        SELFMAG_def ELFMAG_def EI_CLASS_def ELFCLASS32_def EM_RISCV_def)
  have valid: "valid_elf32 (read_Ehdr short_image)"
    by (simp add: valid_elf32_def short_image_ehdr SELFMAG_def ELFMAG_def EI_CLASS_def
        ELFCLASS32_def)
  have seg: "loadable short_image (read_Ehdr short_image) 0"
    by (simp add: loadable_def short_image_ehdr short_image_phdr0 PT_LOAD_def)
  have n: "unat (e_phnum (read_Ehdr short_image)) = 1"
    by (simp add: short_image_ehdr)
  have rest: "unat (load_addr (phdr short_image (read_Ehdr short_image) 0)) +
     unat (p_memsz (phdr short_image (read_Ehdr short_image) 0)) \<le> MEM_SIZE"
    "unat (load_addr (phdr short_image (read_Ehdr short_image) 0)) +
     unat (p_filesz (phdr short_image (read_Ehdr short_image) 0)) \<le> MEM_SIZE"
    "1 < MEM_SIZE"
    "1 \<notin> dest_range (phdr short_image (read_Ehdr short_image) 0)"
    by (simp_all add: short_image_phdr0 load_addr_def dest_range_def MEM_SIZE_def)
  have byte: "memory (load (Mapped short_image) (\<lambda>_. 0xFF)) 1 = 0x5A"
    unfolding r
    by (simp add: short_image_phdr0 copy_segment_def load_addr_def memcpy_def memset_def
        MEM_SIZE_def short_image_data)
  have ret: "returned (load (Mapped short_image) (\<lambda>_. 0xFF))"
    unfolding r by simp
  from valid n seg rest ret byte show ?thesis by simp
qed

text \<open>
  Claim C1 as amended. Take a valid 32-bit image (magic and class as \<^verbatim>\<open>load\<close> checks them)
  whose loadable segments all lie within the buffer (\<open>load_addr + memsz \<le> MEM_SIZE\<close> in
  the natural numbers), whose segments have no more file data than memory
  (\<open>filesz \<le> memsz\<close>, which \<^verbatim>\<open>load\<close> does not check) and whose destination ranges do not
  overlap. Then \<^verbatim>\<open>load\<close> returns true exactly when every loadable segment starts below
  \<open>MEM_SIZE\<close>, and after a load that returned true: every buffer byte in
  \<open>[load_addr, load_addr + filesz)\<close> is the corresponding byte of the segment's file data,
  every byte in \<open>[load_addr + filesz, load_addr + memsz)\<close> is zero, and every byte of the
  buffer outside all loaded segments is zero, whatever the buffer held before.
\<close>

theorem load_places_segments:
  fixes f :: bytes and mem :: bytes
  defines "ehdr \<equiv> read_Ehdr f"
  defines "r \<equiv> load (Mapped f) mem"
  assumes valid: "valid_elf32 ehdr"
    and within: "\<And>j. loadable f ehdr j \<Longrightarrow>
        unat (load_addr (phdr f ehdr j)) + unat (p_memsz (phdr f ehdr j)) \<le> MEM_SIZE \<and>
        unat (p_filesz (phdr f ehdr j)) \<le> unat (p_memsz (phdr f ehdr j))"
    and disjoint: "\<And>j k. loadable f ehdr j \<Longrightarrow> loadable f ehdr k \<Longrightarrow> j \<noteq> k \<Longrightarrow>
        dest_range (phdr f ehdr j) \<inter> dest_range (phdr f ehdr k) = {}"
  shows "(returned r \<longleftrightarrow>
           (\<forall>j. loadable f ehdr j \<longrightarrow> unat (load_addr (phdr f ehdr j)) < MEM_SIZE)) \<and>
         (returned r \<longrightarrow>
           (\<forall>j. loadable f ehdr j \<longrightarrow>
              (\<forall>k. k < unat (p_filesz (phdr f ehdr j)) \<longrightarrow>
                 memory r (unat (load_addr (phdr f ehdr j)) + k) =
                 f (unat (p_offset (phdr f ehdr j)) + k)) \<and>
              (\<forall>k. unat (p_filesz (phdr f ehdr j)) \<le> k \<and> k < unat (p_memsz (phdr f ehdr j)) \<longrightarrow>
                 memory r (unat (load_addr (phdr f ehdr j)) + k) = 0)) \<and>
           (\<forall>a. a < MEM_SIZE \<and> (\<forall>j. loadable f ehdr j \<longrightarrow> a \<notin> dest_range (phdr f ehdr j)) \<longrightarrow>
              memory r a = 0))"
proof -
  let ?m0 = "memset mem 0 0 MEM_SIZE"
  have r: "returned r = returned (load_segments f ehdr 0 ?m0)"
      "memory r = memory (load_segments f ehdr 0 ?m0)"
    using load_mapped_valid[OF valid] by (simp_all add: r_def load_def ehdr_def)
  have success: "returned r \<longleftrightarrow> (\<forall>j. loadable f ehdr j \<longrightarrow> unat (load_addr (phdr f ehdr j)) < MEM_SIZE)"
  proof
    assume "returned r"
    then have "returned (load_segments f ehdr 0 ?m0)" by (simp add: r)
    from load_segments_returned[OF this]
    have "\<not> exceeds_bounds (phdr f ehdr j)" if "loadable f ehdr j" for j
      using that by simp
    then show "\<forall>j. loadable f ehdr j \<longrightarrow> unat (load_addr (phdr f ehdr j)) < MEM_SIZE"
      using within exceeds_bounds_within by (metis not_le)
  next
    assume "\<forall>j. loadable f ehdr j \<longrightarrow> unat (load_addr (phdr f ehdr j)) < MEM_SIZE"
    with within exceeds_bounds_within
    have "\<And>j. 0 \<le> j \<Longrightarrow> loadable f ehdr j \<Longrightarrow> \<not> exceeds_bounds (phdr f ehdr j)"
      by (metis not_le)
    then show "returned r"
      unfolding r by (rule load_segments_succeeds)
  qed
  have inside: "memory r x = segment_byte f (phdr f ehdr j) x"
    if "returned r" "loadable f ehdr j" "x \<in> dest_range (phdr f ehdr j)" for j x
    unfolding r
  proof (rule load_segments_inside)
    show "returned (load_segments f ehdr 0 ?m0)" using that(1) by (simp add: r)
    show "0 \<le> j" by simp
    show "loadable f ehdr j" by fact
    show "x \<in> dest_range (phdr f ehdr j)" by fact
    show "unat (p_filesz (phdr f ehdr k)) \<le> unat (p_memsz (phdr f ehdr k)) \<and>
       (k \<noteq> j \<longrightarrow> x \<notin> dest_range (phdr f ehdr k))" if "loadable f ehdr k" for k
      using within[OF that] disjoint[OF that \<open>loadable f ehdr j\<close>] \<open>x \<in> dest_range (phdr f ehdr j)\<close>
      by auto
  qed
  have file_part: "memory r (unat (load_addr (phdr f ehdr j)) + k) = f (unat (p_offset (phdr f ehdr j)) + k)"
    if "returned r" "loadable f ehdr j" "k < unat (p_filesz (phdr f ehdr j))" for j k
  proof -
    have "unat (load_addr (phdr f ehdr j)) + k \<in> dest_range (phdr f ehdr j)"
      using within[OF that(2)] that(3) by (simp add: dest_range_def)
    from inside[OF that(1,2) this] that(3) show ?thesis
      by (simp add: segment_byte_def)
  qed
  have zero_part: "memory r (unat (load_addr (phdr f ehdr j)) + k) = 0"
    if "returned r" "loadable f ehdr j" "unat (p_filesz (phdr f ehdr j)) \<le> k"
      "k < unat (p_memsz (phdr f ehdr j))" for j k
  proof -
    have "unat (load_addr (phdr f ehdr j)) + k \<in> dest_range (phdr f ehdr j)"
      using that(4) by (simp add: dest_range_def)
    from inside[OF that(1,2) this] that(3) show ?thesis
      by (simp add: segment_byte_def)
  qed
  have outside: "memory r a = 0"
    if "returned r" "a < MEM_SIZE" "\<forall>j. loadable f ehdr j \<longrightarrow> a \<notin> dest_range (phdr f ehdr j)"
    for a
  proof -
    have "memory (load_segments f ehdr 0 ?m0) a = ?m0 a"
      by (rule load_segments_frame) (use within that(3) in blast)
    with that(2) show ?thesis by (simp add: r memset_def)
  qed
  from success file_part zero_part outside show ?thesis
    by blast
qed

text \<open>
  Witness for C1 as amended: the two-segment image, loaded into a buffer full of \<^verbatim>\<open>0xFF\<close>.
\<close>

theorem load_places_segments_witness:
  "returned (load (Mapped firmware_image) (\<lambda>_. 0xFF)) \<and>
   memory (load (Mapped firmware_image) (\<lambda>_. 0xFF)) 0 = 0x13 \<and>
   memory (load (Mapped firmware_image) (\<lambda>_. 0xFF)) 4 = 0xAB \<and>
   memory (load (Mapped firmware_image) (\<lambda>_. 0xFF)) 6 = 0 \<and>
   memory (load (Mapped firmware_image) (\<lambda>_. 0xFF)) 11 = 0 \<and>
   memory (load (Mapped firmware_image) (\<lambda>_. 0xFF)) 12 = 0"
proof -
  let ?f = firmware_image and ?e = "read_Ehdr firmware_image"
  let ?r = "load (Mapped firmware_image) (\<lambda>_. 0xFF)"
  have valid: "valid_elf32 ?e"
    by (simp add: valid_elf32_def firmware_image_ehdr SELFMAG_def ELFMAG_def EI_CLASS_def
        ELFCLASS32_def)
  have within: "unat (load_addr (phdr ?f ?e j)) + unat (p_memsz (phdr ?f ?e j)) \<le> MEM_SIZE \<and>
        unat (p_filesz (phdr ?f ?e j)) \<le> unat (p_memsz (phdr ?f ?e j))"
    if "loadable ?f ?e j" for j
    using that firmware_image_phdr0 firmware_image_phdr1
    by (auto simp: firmware_image_loadable load_addr_def MEM_SIZE_def)
  have disjoint: "dest_range (phdr ?f ?e j) \<inter> dest_range (phdr ?f ?e k) = {}"
    if "loadable ?f ?e j" "loadable ?f ?e k" "j \<noteq> k" for j k
    using that firmware_image_phdr0 firmware_image_phdr1
    by (auto simp: firmware_image_loadable load_addr_def dest_range_def)
  note facts = load_places_segments[of ?f "\<lambda>_. 0xFF", OF valid within disjoint]
  have ret: "returned ?r"
    using facts firmware_image_phdr0 firmware_image_phdr1
    by (auto simp: firmware_image_loadable load_addr_def MEM_SIZE_def)
  have l0: "loadable ?f ?e 0" and l1: "loadable ?f ?e (Suc 0)"
    by (simp_all add: firmware_image_loadable)
  have file_part: "memory ?r (unat (load_addr (phdr ?f ?e j)) + k) =
      ?f (unat (p_offset (phdr ?f ?e j)) + k)"
    if "loadable ?f ?e j" "k < unat (p_filesz (phdr ?f ?e j))" for j k
    using facts ret that by blast
  have zero_part: "memory ?r (unat (load_addr (phdr ?f ?e j)) + k) = 0"
    if "loadable ?f ?e j" "unat (p_filesz (phdr ?f ?e j)) \<le> k" "k < unat (p_memsz (phdr ?f ?e j))"
    for j k
    using facts ret that by blast
  have b0: "memory ?r 0 = 0x13"
    using file_part[OF l0, of 0]
    by (simp add: firmware_image_phdr0 load_addr_def firmware_image_data)
  have b4: "memory ?r 4 = 0xAB"
    using file_part[OF l1, of 0]
    by (simp add: firmware_image_phdr1 load_addr_def firmware_image_data)
  have b6: "memory ?r 6 = 0"
    using zero_part[OF l1, of 2] by (simp add: firmware_image_phdr1 load_addr_def)
  have b11: "memory ?r 11 = 0"
    using zero_part[OF l1, of 7] by (simp add: firmware_image_phdr1 load_addr_def)
  have "\<forall>j. loadable ?f ?e j \<longrightarrow> 12 \<notin> dest_range (phdr ?f ?e j)"
    using firmware_image_phdr0 firmware_image_phdr1
    by (auto simp: firmware_image_loadable load_addr_def dest_range_def)
  moreover have "(12::nat) < MEM_SIZE" by (simp add: MEM_SIZE_def)
  ultimately have b12: "memory ?r 12 = 0"
    using facts ret by blast
  from ret b0 b4 b6 b11 b12 show ?thesis by simp
qed

subsection \<open>C2: a segment that reaches beyond the buffer\<close>

text \<open>
  Claim C2 says that \<^verbatim>\<open>load\<close> fails with the bounds error, and copies nothing of the segment,
  whenever \<open>load_addr + memsz\<close> as an unbounded sum exceeds the capacity. The code computes
  the sum in \<^verbatim>\<open>uint32_t\<close>. For the segment at address 16 with \<^verbatim>\<open>p_memsz = 0xFFFFFFF0\<close> the
  unbounded sum is far beyond the capacity, the 32-bit sum is 0, and the code goes on:
  \<^verbatim>\<open>load\<close> returns true with nothing on \<^verbatim>\<open>stderr\<close>, the four file bytes are in the buffer at
  16 to 19, and the zeroing that follows runs over the end of the buffer (the byte at offset
  \<open>MEM_SIZE\<close>, which held \<^verbatim>\<open>0xFF\<close>, is zero afterwards).
\<close>

theorem wrapped_bounds_check_passes:
  "MEM_SIZE < unat (load_addr (phdr wrap_image (read_Ehdr wrap_image) 0)) +
       unat (p_memsz (phdr wrap_image (read_Ehdr wrap_image) 0)) \<and>
   returned (load (Mapped wrap_image) (\<lambda>_. 0xFF)) \<and>
   stderr (load (Mapped wrap_image) (\<lambda>_. 0xFF)) = [] \<and>
   memory (load (Mapped wrap_image) (\<lambda>_. 0xFF)) 16 = 0xDE \<and>
   memory (load (Mapped wrap_image) (\<lambda>_. 0xFF)) 19 = 0xEF \<and>
   memory (load (Mapped wrap_image) (\<lambda>_. 0xFF)) MEM_SIZE = 0"
proof -
  have r: "load (Mapped wrap_image) (\<lambda>_. 0xFF) =
      \<lparr> returned = True,
        memory = copy_segment wrap_image (phdr wrap_image (read_Ehdr wrap_image) 0)
          (memset (\<lambda>_. 0xFF) 0 0 MEM_SIZE),
        stderr = [] \<rparr>"
    by (simp add: load_def load_mapped_def wrap_image_ehdr wrap_image_segments
        SELFMAG_def ELFMAG_def EI_CLASS_def ELFCLASS32_def EM_RISCV_def)
  show ?thesis
    unfolding r
    by (simp add: wrap_image_phdr0 copy_segment_def load_addr_def memcpy_def memset_def
        MEM_SIZE_def wrap_image_data)
qed

subsection \<open>C3: the timeout\<close>



subsection \<open>C4: the terminal status\<close>

text \<open>
  Claim C4 says that \<^verbatim>\<open>TIMEOUT\<close> is reported only when the budget is exhausted without a
  finish signal, and that every run in which the finish signal arrives ends as
  \<^verbatim>\<open>FINISHED\<close> with exit code 0. Counterexample: with a budget of one cycle the device that
  finishes on its first active edge has signalled finish when the loop ends, and the run is
  reported as \<^verbatim>\<open>TIMEOUT\<close> with exit code 2, because \<^verbatim>\<open>timed_out\<close> is set from the cycle count
  alone.
\<close>

theorem finish_on_the_last_budgeted_cycle_reports_timeout:
  "gotFinish one_cycle_device (model (sim_loop one_cycle_device budget_one (initial_state 0))) \<and>
   run_simulation one_cycle_device budget_one 0 =
     Simulated True (sim_loop one_cycle_device budget_one (initial_state 0)) \<and>
   status (run_simulation one_cycle_device budget_one 0) = Some ''TIMEOUT'' \<and>
   exit_code (run_simulation one_cycle_device budget_one 0) = Some 2"
  using one_cycle_finished
  by (simp add: run_simulation_def Let_def one_cycle_run) (simp add: budget_one_def)

text \<open>
  Claim C4 as amended. The status is one of \<^verbatim>\<open>TIMEOUT\<close> and \<^verbatim>\<open>FINISHED\<close>. \<^verbatim>\<open>TIMEOUT\<close> (exit
  code 2) is reported exactly when \<^verbatim>\<open>cycle\<close> has reached the budget at the end of the loop,
  whether or not the device has signalled finish on that last cycle; \<^verbatim>\<open>FINISHED\<close> (exit code
  0) is reported exactly when the finish signal has arrived while \<^verbatim>\<open>cycle\<close> is still below the
  budget.
\<close>

theorem terminal_status:
  fixes D :: "'d dut" and opts :: options and m :: 'd
  defines "s \<equiv> sim_loop D opts (initial_state m)"
  defines "r \<equiv> run_simulation D opts m"
  shows "(status r = Some ''TIMEOUT'' \<or> status r = Some ''FINISHED'') \<and>
     (status r = Some ''TIMEOUT'' \<longleftrightarrow> timeout_cycles opts \<le> cycle s) \<and>
     (status r = Some ''TIMEOUT'' \<longleftrightarrow> exit_code r = Some 2) \<and>
     (status r = Some ''FINISHED'' \<longleftrightarrow> gotFinish D (model s) \<and> cycle s < timeout_cycles opts) \<and>
     (status r = Some ''FINISHED'' \<longleftrightarrow> exit_code r = Some 0)"
proof -
  have "\<not> running D opts s"
    unfolding s_def by (rule sim_loop_not_running)
  then have "gotFinish D (model s) \<or> timeout_cycles opts \<le> cycle s"
    by (auto simp: running_def)
  then show ?thesis
    by (auto simp: r_def run_simulation_def Let_def s_def[symmetric])
qed

text \<open>
  Witness for C4 as amended: the never finishing device with a budget of three cycles.
\<close>

theorem terminal_status_witness:
  "status (run_simulation never_finishing_device budget_three 0) = Some ''TIMEOUT'' \<and>
   timeout_cycles budget_three \<le> cycle (sim_loop never_finishing_device budget_three (initial_state 0)) \<and>
   exit_code (run_simulation never_finishing_device budget_three 0) = Some 2"
proof -
  have "timeout_cycles budget_three \<le>
      cycle (sim_loop never_finishing_device budget_three (initial_state 0))"
    by (simp add: never_finishing_run) (simp add: budget_three_def)
  with terminal_status[where D = never_finishing_device and opts = budget_three and m = 0]
  show ?thesis by blast
qed

subsection \<open>C5: the trace records\<close>

text \<open>
  Claim C5. With tracing enabled, the trace file of a run holds exactly one record for each
  active edge on which the device asserts \<^verbatim>\<open>trace_valid\<close>, in the order of the run; the
  cycle numbers of these edges increase strictly; and for every value of the trace-data
  pin the record is nine hexadecimal digits followed by a newline.
\<close>

theorem trace_records_follow_the_traced_edges:
  fixes D :: "'d dut" and opts :: options and m :: 'd
  assumes "trace_fd opts"
  shows "trace (sim_loop D opts (initial_state m)) =
       map (\<lambda>x. printf_9_9lx (ucast (trace_data D (model x))))
         (filter (traced_edge D) (sim_run D opts (initial_state m))) \<and>
     sorted_wrt (<) (map cycle (filter (traced_edge D) (sim_run D opts (initial_state m)))) \<and>
     (\<forall>v :: 36 word. length (printf_9_9lx (ucast v)) = 10 \<and>
        list_all is_hex_digit (take 9 (printf_9_9lx (ucast v))) \<and>
        drop 9 (printf_9_9lx (ucast v)) = [CHR 0x0A])"
  using assms sim_loop_trace[of D opts "initial_state m"] sim_run_traced_cycles[of D opts]
    trace_record_format
  by (simp add: initial_state_def)

text \<open>
  Witness for C5: the never finishing device traces its first and third cycle.
\<close>

theorem trace_records_follow_the_traced_edges_witness:
  "trace_fd budget_three \<and>
   trace (sim_loop never_finishing_device budget_three (initial_state 0)) =
     [''000000001'' @ [CHR 0x0A], ''000000003'' @ [CHR 0x0A]] \<and>
   trace (sim_loop never_finishing_device budget_three (initial_state 0)) =
     map (\<lambda>x. printf_9_9lx (ucast (trace_data never_finishing_device (model x))))
       (filter (traced_edge never_finishing_device)
         (sim_run never_finishing_device budget_three (initial_state 0))) \<and>
   length (printf_9_9lx (ucast (0xFFFFFFFFF :: 36 word))) = 10"
proof -
  have on: "trace_fd budget_three"
    by (simp add: budget_three_def)
  have zeros: "replicate 8 (CHR ''0'') = ''00000000''"
    by (simp add: numeral_eq_Suc)
  have lines: "printf_9_9lx 1 = ''000000001'' @ [CHR 0x0A]"
      "printf_9_9lx 3 = ''000000003'' @ [CHR 0x0A]"
    by (simp_all add: printf_9_9lx_def hex_digits.simps hex_digit_def Let_def zeros)
  note facts = trace_records_follow_the_traced_edges[OF on, of never_finishing_device 0]
  from facts have widest: "length (printf_9_9lx (ucast (0xFFFFFFFFF :: 36 word))) = 10"
    by blast
  from facts on widest show ?thesis
    by (simp add: never_finishing_run lines)
qed

subsection \<open>C6: the timeout argument\<close>

text \<open>
  Claim C6 says that \<^verbatim>\<open>--timeout=N\<close> is accepted if and only if \<open>N\<close> parses as a positive
  integer. Counterexample: \<^verbatim>\<open>12abc\<close> is not a positive integer, and
  \<^verbatim>\<open>--timeout=12abc\<close> is accepted with a budget of 12, because \<^verbatim>\<open>atoi\<close> stops reading at the
  first character that is not a digit.
\<close>

theorem timeout_with_trailing_text_is_accepted:
  "\<not> parses_as_positive_integer ''12abc'' \<and>
   parse_args [''--timeout=12abc'', ''firmware.elf''] None 1000000 =
     Parsed (Some ''firmware.elf'') 12"
  by (simp add: parses_as_positive_integer_def atoi_def isspace_def isdigit_def digit_value_def)

text \<open>
  Claim C6 as amended. Where the argument loop reaches \<^verbatim>\<open>--timeout=N\<close> (no \<^verbatim>\<open>-h\<close>,
  \<^verbatim>\<open>--help\<close> or fatal argument before it) and \<^verbatim>\<open>atoi(N)\<close> is representable as an \<^verbatim>\<open>int\<close>, the
  argument is accepted if and only if \<^verbatim>\<open>atoi(N)\<close> is positive, and then sets the budget to
  that value. \<^verbatim>\<open>atoi\<close> reads the decimal digits at the start of \<open>N\<close>, after optional white
  space and sign, and ignores what follows; no digits give 0. When \<^verbatim>\<open>atoi(N)\<close> is zero or
  negative the run ends with the error for an invalid timeout value and exit code 1,
  before the model is created.
\<close>

theorem timeout_accepted_iff_atoi_positive:
  fixes env :: "'d env"
  assumes before: "parse_args pre None 1000000 = Parsed elf_file t"
    and val: "atoi N = Some v"
  shows "(0 < v \<longrightarrow>
        parse_args (pre @ (''--timeout='' @ N) # post) None 1000000 = parse_args post elf_file v) \<and>
     (v \<le> 0 \<longrightarrow>
        parse_args (pre @ (''--timeout='' @ N) # post) None 1000000 = Fatal InvalidTimeout \<and>
        main (prog # pre @ (''--timeout='' @ N) # post) env = ArgumentError InvalidTimeout \<and>
        exit_code (main (prog # pre @ (''--timeout='' @ N) # post) env) = Some 1)"
proof -
  have "parse_args (pre @ (''--timeout='' @ N) # post) None 1000000 =
      (if v \<le> 0 then Fatal InvalidTimeout else parse_args post elf_file v)"
    using parse_args_append[OF before] parse_args_timeout[OF val] by simp
  then show ?thesis
    by (simp add: main_def)
qed

text \<open>
  Witness for C6 as amended: \<^verbatim>\<open>--timeout=0\<close> and \<^verbatim>\<open>--timeout=-5\<close> are rejected,
  \<^verbatim>\<open>--timeout=5000\<close> sets the budget.
\<close>

theorem timeout_accepted_iff_atoi_positive_witness:
  "parse_args [''+vcd'', ''firmware.elf''] None 1000000 = Parsed (Some ''firmware.elf'') 1000000 \<and>
   atoi ''0'' = Some 0 \<and>
   main [''testbench_cli'', ''+vcd'', ''firmware.elf'', ''--timeout=0''] bench_env =
     ArgumentError InvalidTimeout \<and>
   atoi ''-5'' = Some (- 5) \<and>
   main [''testbench_cli'', ''+vcd'', ''firmware.elf'', ''--timeout=-5''] bench_env =
     ArgumentError InvalidTimeout \<and>
   exit_code (main [''testbench_cli'', ''+vcd'', ''firmware.elf'', ''--timeout=-5''] bench_env) =
     Some 1 \<and>
   atoi ''5000'' = Some 5000 \<and>
   parse_args [''+vcd'', ''firmware.elf'', ''--timeout=5000''] None 1000000 =
     Parsed (Some ''firmware.elf'') 5000"
proof -
  have before: "parse_args [''+vcd'', ''firmware.elf''] None 1000000 =
      Parsed (Some ''firmware.elf'') 1000000"
    by simp
  from timeout_accepted_iff_atoi_positive[OF before atoi_examples(1), of "[]" "''testbench_cli''" bench_env]
    timeout_accepted_iff_atoi_positive[OF before atoi_examples(2), of "[]" "''testbench_cli''" bench_env]
    timeout_accepted_iff_atoi_positive[OF before atoi_examples(3), of "[]" "''testbench_cli''" bench_env]
    before atoi_examples
  show ?thesis by simp
qed

subsection \<open>C7: cycle count and logical time\<close>

text \<open>
  Claim C7. Along every run, from one iteration to the next, the clock toggles, \<^verbatim>\<open>t\<close>
  advances by 5 and \<^verbatim>\<open>cycle\<close> advances by one if the iteration ends on an active edge (the clock
  has just risen and the reset is released) and not at all otherwise; at the end of the loop
  \<^verbatim>\<open>cycle\<close> is the number of active edges of the run and \<^verbatim>\<open>t\<close> is five times the number of
  iterations. \<^verbatim>\<open>t\<close> is an \<^verbatim>\<open>int\<close>: the sums are those of 32-bit arithmetic, and they are the
  sums of the integers as long as the result is below \<open>2 ^ 31\<close>.
\<close>

theorem cycle_counts_active_edges:
  fixes D :: "'d dut" and opts :: options and m :: 'd
  defines "run \<equiv> sim_run D opts (initial_state m)"
  defines "h \<equiv> initial_state m # sim_run D opts (initial_state m)"
  shows "(\<forall>k. Suc k < length h \<longrightarrow>
        clk (h ! Suc k) = (\<not> clk (h ! k)) \<and>
        time (h ! Suc k) = time (h ! k) + 5 \<and>
        cycle (h ! Suc k) = cycle (h ! k) + (if active_edge (h ! Suc k) then 1 else 0)) \<and>
     sim_loop D opts (initial_state m) = last h \<and>
     cycle (sim_loop D opts (initial_state m)) = int (length (filter active_edge run)) \<and>
     time (sim_loop D opts (initial_state m)) = 5 * of_nat (length run) \<and>
     (5 * int (length run) < 2 ^ 31 \<longrightarrow>
        sint (time (sim_loop D opts (initial_state m))) = 5 * int (length run))"
proof -
  have step: "clk (h ! Suc k) = (\<not> clk (h ! k)) \<and>
        time (h ! Suc k) = time (h ! k) + 5 \<and>
        cycle (h ! Suc k) = cycle (h ! k) + (if active_edge (h ! Suc k) then 1 else 0)"
    if "Suc k < length h" for k
  proof -
    from that have "h ! Suc k = sim_step D opts (h ! k)"
      unfolding h_def by (rule sim_run_nth[THEN conjunct1])
    then show ?thesis by (simp add: sim_step_fields)
  qed
  have final: "sim_loop D opts (initial_state m) = last h"
    unfolding h_def by (rule sim_loop_last)
  have cyc: "cycle (sim_loop D opts (initial_state m)) = int (length (filter active_edge run))"
    using sim_loop_cycle_count[of D opts "initial_state m"]
    by (simp add: run_def initial_state_def)
  have tm: "time (sim_loop D opts (initial_state m)) = 5 * of_nat (length run)"
    using sim_loop_time[of D opts "initial_state m"]
    by (simp add: run_def initial_state_def)
  have "sint (time (sim_loop D opts (initial_state m))) = 5 * int (length run)"
    if "5 * int (length run) < 2 ^ 31"
    using sint_time_of_steps[OF that] by (simp add: tm)
  with step final cyc tm show ?thesis by blast
qed

text \<open>
  Witness for C7: iteration 43 of the never finishing device is its first active edge.
\<close>

theorem cycle_counts_active_edges_witness:
  "42 < length (sim_run never_finishing_device budget_three (initial_state 0)) \<and>
   active_edge (sim_run never_finishing_device budget_three (initial_state 0) ! 42) \<and>
   cycle (sim_run never_finishing_device budget_three (initial_state 0) ! 42) =
     cycle (sim_run never_finishing_device budget_three (initial_state 0) ! 41) + 1 \<and>
   time (sim_run never_finishing_device budget_three (initial_state 0) ! 42) =
     time (sim_run never_finishing_device budget_three (initial_state 0) ! 41) + 5 \<and>
   length (filter active_edge (sim_run never_finishing_device budget_three (initial_state 0))) = 3 \<and>
   5 * int (length (sim_run never_finishing_device budget_three (initial_state 0))) < 2 ^ 31 \<and>
   sint (time (sim_loop never_finishing_device budget_three (initial_state 0))) = 235"
proof -
  let ?run = "sim_run never_finishing_device budget_three (initial_state 0)"
  let ?h = "initial_state 0 # ?run"
  have "length (map (\<lambda>x. (active_edge x, cycle x)) ?run) = 47"
    by (simp only: never_finishing_history) simp
  then have len: "length ?run = 47" by simp
  have "map (\<lambda>x. (active_edge x, cycle x)) ?run ! 42 = (True, 1)"
    by (simp only: never_finishing_history) (simp add: nth_append)
  with len have edge: "active_edge (?run ! 42)" by simp
  note facts = cycle_counts_active_edges[where D = never_finishing_device and opts = budget_three
      and m = 0]
  from len have "Suc 42 < length ?h" by simp
  with facts have "time (?h ! Suc 42) = time (?h ! 42) + 5 \<and>
      cycle (?h ! Suc 42) = cycle (?h ! 42) + (if active_edge (?h ! Suc 42) then 1 else 0)"
    by blast
  with edge have step: "time (?run ! 42) = time (?run ! 41) + 5"
      "cycle (?run ! 42) = cycle (?run ! 41) + 1"
    by simp_all
  from facts have "cycle (sim_loop never_finishing_device budget_three (initial_state 0)) =
      int (length (filter active_edge ?run))"
    by blast
  then have count: "length (filter active_edge ?run) = 3"
    by (simp add: never_finishing_run)
  have fits: "5 * int (length ?run) < 2 ^ 31"
    by (simp add: len)
  with facts have "sint (time (sim_loop never_finishing_device budget_three (initial_state 0))) =
      5 * int (length ?run)"
    by blast
  with len have tm: "sint (time (sim_loop never_finishing_device budget_three (initial_state 0))) = 235"
    by simp
  from len edge step count fits tm show ?thesis by simp
qed

subsection \<open>C8: an image for another machine\<close>

text \<open>
  Claim C8. For every image whose header passes the magic and class checks and whose
  machine field is not RISC-V, \<^verbatim>\<open>load\<close> does exactly what it does when the same bytes are read
  under a header whose machine field is RISC-V: the same return value and the same buffer
  contents, with the warning as one more line at the front of \<^verbatim>\<open>stderr\<close>.
\<close>

theorem machine_mismatch_is_only_a_warning:
  assumes "valid_elf32 (read_Ehdr f)" and "e_machine (read_Ehdr f) \<noteq> EM_RISCV"
  shows "load (Mapped f) mem =
     (load_mapped ((read_Ehdr f)\<lparr>e_machine := EM_RISCV\<rparr>) f mem)
       \<lparr> stderr := WarningNotRiscv (e_machine (read_Ehdr f)) #
           stderr (load_mapped ((read_Ehdr f)\<lparr>e_machine := EM_RISCV\<rparr>) f mem) \<rparr>"
  using assms
  by (simp add: load_def load_mapped_def valid_elf32_def Let_def load_segments_machine)

text \<open>
  Witness for C8: the image declared for machine 62 loads, with the warning only.
\<close>

theorem machine_mismatch_is_only_a_warning_witness:
  "valid_elf32 (read_Ehdr foreign_image) \<and>
   e_machine (read_Ehdr foreign_image) \<noteq> EM_RISCV \<and>
   returned (load (Mapped foreign_image) (\<lambda>a. 0xFF)) \<and>
   stderr (load (Mapped foreign_image) (\<lambda>a. 0xFF)) = [WarningNotRiscv 62]"
proof -
  have valid: "valid_elf32 (read_Ehdr foreign_image)"
    by (simp add: valid_elf32_def foreign_image_ehdr SELFMAG_def ELFMAG_def EI_CLASS_def
        ELFCLASS32_def)
  have other: "e_machine (read_Ehdr foreign_image) \<noteq> EM_RISCV"
    by (simp add: foreign_image_ehdr EM_RISCV_def)
  from machine_mismatch_is_only_a_warning[OF valid other, of "\<lambda>a. 0xFF"]
    foreign_image_loads[of "\<lambda>a. 0xFF"] valid other
  show ?thesis
    by (simp add: foreign_image_ehdr)
qed

subsection \<open>C9: a segment that starts at the end of the buffer\<close>

text \<open>
  Claim C9. If some loadable segment of a valid 32-bit image has its load address at or
  beyond \<open>MEM_SIZE\<close>, whatever its size in memory (zero included), \<^verbatim>\<open>load\<close> returns false and
  the last line on \<^verbatim>\<open>stderr\<close> is the bounds error of the first loadable segment that fails
  the test of the code.
\<close>

theorem load_addr_at_capacity_rejected:
  fixes f :: bytes and mem :: bytes
  defines "ehdr \<equiv> read_Ehdr f"
  defines "r \<equiv> load (Mapped f) mem"
  assumes valid: "valid_elf32 ehdr"
    and seg: "loadable f ehdr j"
    and beyond: "MEM_SIZE \<le> unat (load_addr (phdr f ehdr j))"
  shows "\<not> returned r \<and>
    (\<exists>i. i \<le> j \<and> loadable f ehdr i \<and> exceeds_bounds (phdr f ehdr i) \<and>
       (\<forall>k. k < i \<and> loadable f ehdr k \<longrightarrow> \<not> exceeds_bounds (phdr f ehdr k)) \<and>
       last (stderr r) = SegmentExceeds i (load_addr (phdr f ehdr i)) (p_memsz (phdr f ehdr i)))"
proof -
  from beyond have "exceeds_bounds (phdr f ehdr j)"
    by (simp add: exceeds_bounds_def)
  from load_segments_fails[OF le0 seg this, of "memset mem 0 0 MEM_SIZE"]
  obtain i where i: "i \<le> j" "loadable f ehdr i" "exceeds_bounds (phdr f ehdr i)"
    "\<forall>k. k < i \<and> loadable f ehdr k \<longrightarrow> \<not> exceeds_bounds (phdr f ehdr k)"
    "\<not> returned (load_segments f ehdr 0 (memset mem 0 0 MEM_SIZE))"
    "stderr (load_segments f ehdr 0 (memset mem 0 0 MEM_SIZE)) =
         [SegmentExceeds i (load_addr (phdr f ehdr i)) (p_memsz (phdr f ehdr i))]"
    by auto
  from valid i(5,6) have "\<not> returned r"
    "last (stderr r) = SegmentExceeds i (load_addr (phdr f ehdr i)) (p_memsz (phdr f ehdr i))"
    by (simp_all add: r_def load_def ehdr_def[symmetric] load_mapped_def valid_elf32_def Let_def)
  with i(1-4) show ?thesis by blast
qed

text \<open>
  Witness for C9: the empty segment at \<^verbatim>\<open>0x20000\<close> satisfies
  \<open>load_addr + memsz \<le> MEM_SIZE\<close> and is rejected.
\<close>

theorem load_addr_at_capacity_rejected_witness:
  "unat (load_addr (phdr edge_image (read_Ehdr edge_image) 0)) +
     unat (p_memsz (phdr edge_image (read_Ehdr edge_image) 0)) \<le> MEM_SIZE \<and>
   \<not> returned (load (Mapped edge_image) (\<lambda>_. 0)) \<and>
   last (stderr (load (Mapped edge_image) (\<lambda>_. 0))) = SegmentExceeds 0 0x20000 0"
proof -
  let ?f = edge_image and ?e = "read_Ehdr edge_image"
  have valid: "valid_elf32 ?e"
    by (simp add: valid_elf32_def edge_image_ehdr SELFMAG_def ELFMAG_def EI_CLASS_def
        ELFCLASS32_def)
  have seg: "loadable ?f ?e 0"
    by (simp add: loadable_def edge_image_ehdr edge_image_phdr0 PT_LOAD_def)
  have beyond: "MEM_SIZE \<le> unat (load_addr (phdr ?f ?e 0))"
    by (simp add: edge_image_phdr0 load_addr_def MEM_SIZE_def)
  have fits: "unat (load_addr (phdr ?f ?e 0)) + unat (p_memsz (phdr ?f ?e 0)) \<le> MEM_SIZE"
    by (simp add: edge_image_phdr0 load_addr_def MEM_SIZE_def)
  from load_addr_at_capacity_rejected[OF valid seg beyond, of "\<lambda>_. 0"] fits
  show ?thesis
    by (auto simp: edge_image_phdr0 load_addr_def)
qed

subsection \<open>C10: arguments that begin with a plus sign\<close>

text \<open>
  Claim C10. An argument that begins with \<^verbatim>\<open>+\<close> is skipped by the argument loop, whatever
  follows the sign: the image path and the budget stay as they are, and the loop gives the
  same result as on the command line without such arguments. An argument that begins with
  \<^verbatim>\<open>-\<close> and is none of \<^verbatim>\<open>-h\<close>, \<^verbatim>\<open>--help\<close> and \<^verbatim>\<open>--timeout=\<close> ends the run with the error
  for an unknown option, and that error is raised for such arguments only.
\<close>

theorem plus_arguments_are_skipped:
  "parse_args ((CHR ''+'' # rest) # args) elf_file t = parse_args args elf_file t \<and>
   parse_args args elf_file t = parse_args (filter (\<lambda>a. take 1 a \<noteq> ''+'') args) elf_file t \<and>
   (take 1 arg = ''-'' \<and> arg \<noteq> ''-h'' \<and> arg \<noteq> ''--help'' \<and> take 10 arg \<noteq> ''--timeout='' \<longrightarrow>
      parse_args (arg # args) elf_file t = Fatal (UnknownOption arg)) \<and>
   (parse_args args elf_file t = Fatal (UnknownOption a) \<longrightarrow>
      a \<in> set args \<and> take 1 a = ''-'')"
proof -
  have "parse_args ((CHR ''+'' # rest) # args) elf_file t = parse_args args elf_file t"
    by simp
  moreover have "parse_args args elf_file t =
      parse_args (filter (\<lambda>a. take 1 a \<noteq> ''+'') args) elf_file t"
    by (rule parse_args_skips_plus)
  moreover have "parse_args (arg # args) elf_file t = Fatal (UnknownOption arg)"
    if "take 1 arg = ''-'' \<and> arg \<noteq> ''-h'' \<and> arg \<noteq> ''--help'' \<and> take 10 arg \<noteq> ''--timeout=''"
    using that by auto
  moreover have "a \<in> set args \<and> take 1 a = ''-''"
    if "parse_args args elf_file t = Fatal (UnknownOption a)"
    using parse_args_unknown_option[OF that] by simp
  ultimately show ?thesis by blast
qed

text \<open>
  Witness for C10: \<^verbatim>\<open>+notaflag\<close> is skipped, \<^verbatim>\<open>-x\<close> is fatal.
\<close>

theorem plus_arguments_are_skipped_witness:
  "parse_args [''+notaflag'', ''firmware.elf''] None 1000000 =
     Parsed (Some ''firmware.elf'') 1000000 \<and>
   parse_args [''-x'', ''firmware.elf''] None 1000000 = Fatal (UnknownOption ''-x'')"
proof -
  have "take 1 ''-x'' = ''-'' \<and> ''-x'' \<noteq> ''-h'' \<and> ''-x'' \<noteq> ''--help'' \<and>
      take 10 ''-x'' \<noteq> ''--timeout=''"
    by simp
  with plus_arguments_are_skipped[of "''notaflag''" "[''firmware.elf'']" None 1000000 "''-x''"]
  show ?thesis by simp
qed

end
